theory Spec2Isabelle
  imports Complex_Main "HOL-Library.Word"
begin

section \<open>Data model\<close>

text \<open>
  The class \<open>WebGLLogoParticles\<close> of \<open>webglanim.ts\<close>. A JavaScript \<open>number\<close> is modelled
  as a real; infinities and NaN have no real to stand for them, so where the source
  could produce one (a division whose divisor may vanish, a read of \<open>undefined\<close>) the
  model says so with a value of its own. Particle creation is followed in double
  precision, each operation rounded: there the rounding decides which rows and columns
  the loops visit and which bytes are read. The physics step, the random depth and
  size and the colour channels are followed in exact arithmetic. The field \<open>size\<close> of a
  particle is \<open>psize\<close> here.
\<close>

record Particle =
  x :: real
  y :: real
  z :: real
  vx :: real
  vy :: real
  vz :: real
  originX :: real
  originY :: real
  originZ :: real
  color :: "real \<times> real \<times> real \<times> real"
  psize :: real

text \<open>
  The fields of the object (the canvas by its \<open>width\<close> and \<open>height\<close>, which are
  unsigned integers; the two handler fields as booleans: defined or not), followed by
  the part of the host page the object acts on: the two WebGL resources, the listeners
  registered on the canvas, the \<open>onload\<close> handler of the image, the callbacks waiting
  for the next animation frame (by handle, in request order), the handle the host will
  give out next (handles are positive, so the initial \<open>animationId\<close> of 0 names none),
  the vertex counts passed to \<open>drawArrays\<close> so far and the number of \<open>Math.random\<close>
  calls made so far.
\<close>

record State =
  canvas_width :: nat
  canvas_height :: nat
  particles :: "Particle list"
  mouseX :: real
  mouseY :: real
  animationId :: nat
  isMouseOver :: bool
  particleCount :: nat
  mouseMoveHandler_field :: bool
  mouseOutHandler_field :: bool
  program_live :: bool
  buffer_live :: bool
  listening_mousemove :: bool
  listening_mouseout :: bool
  onload_set :: bool
  scheduled :: "nat list"
  next_handle :: nat
  draws :: "nat list"
  rng :: nat

datatype shader_type = VERTEX_SHADER | FRAGMENT_SHADER

text \<open>
  What the host answers: the size of the canvas element handed in, whether the canvas
  yields a WebGL2 context, the compile status and info log of each shader, the link
  status and info log of the program, whether a 2D context can be had, the size of the
  decoded image (like the canvas size an unsigned 32-bit integer in the host, so a
  double as it is), the bytes \<open>getImageData\<close> returns for a requested width and height
  (\<open>None\<close> when it raises) and the values \<open>Math.random\<close> returns, in call order.
\<close>

record Env =
  canvas_width0 :: nat
  canvas_height0 :: nat
  webgl2 :: bool
  compile_status :: "shader_type \<Rightarrow> bool"
  shader_log :: "shader_type \<Rightarrow> string"
  link_status :: bool
  program_log :: string
  ctx2d :: bool
  logo_width :: nat
  logo_height :: nat
  getImageData :: "real \<Rightarrow> real \<Rightarrow> 8 word list option"
  random :: "nat \<Rightarrow> real"

text \<open>
  What can be raised: \<open>new Error(message)\<close>, the TypeError of a property read on
  \<open>undefined\<close>, the exception of a rejected \<open>getImageData\<close>. Two more values mark
  results no real stands for: \<open>NotANumber\<close> for arithmetic on \<open>undefined\<close>, and
  \<open>NonFinite\<close> for a quotient whose divisor is 0 (an infinity or NaN in the source).
\<close>

datatype error = Error string | TypeError | DOMException | NotANumber | NonFinite

type_synonym console = "(string \<times> string) list"

section \<open>Double-precision arithmetic\<close>

text \<open>
  Rounding to the nearest number with 53 significant bits, ties to the even one:
  \<open>binade v\<close> is the exponent of the power of two at or below \<open>\<bar>v\<bar>\<close>, the spacing of
  the representable numbers there is \<open>2 powi (binade v - 52)\<close>, and \<open>fl v\<close> is the
  multiple of that spacing nearest to \<open>v\<close>. The exponent is unbounded: overflow and
  subnormal numbers are left out, the quantities rounded here being sizes and indices
  far from both. An operation of the source is the exact operation followed by \<open>fl\<close>.
\<close>

definition binade :: "real \<Rightarrow> int" where
  "binade v = \<lfloor>log 2 \<bar>v\<bar>\<rfloor>"

definition round_even :: "real \<Rightarrow> int" where
  "round_even q =
     (let n = \<lfloor>q\<rfloor>; r = q - of_int n
      in if r < 1 / 2 then n
         else if 1 / 2 < r then n + 1
         else if even n then n else n + 1)"

definition fl :: "real \<Rightarrow> real" where
  "fl v =
     (if v = 0 then 0
      else (let u = 2 powi (binade v - 52) in u * of_int (round_even (v / u))))"

definition fadd :: "real \<Rightarrow> real \<Rightarrow> real" where "fadd a b = fl (a + b)"
definition fsub :: "real \<Rightarrow> real \<Rightarrow> real" where "fsub a b = fl (a - b)"
definition fmul :: "real \<Rightarrow> real \<Rightarrow> real" where "fmul a b = fl (a * b)"
definition fdiv :: "real \<Rightarrow> real \<Rightarrow> real" where "fdiv a b = fl (a / b)"

section \<open>The physics step of \<open>animate\<close>\<close>

text \<open>
  A quotient of the physics step. With divisor 0 the source yields an infinity or NaN
  and carries it into the velocity; the model stops there with \<open>NonFinite\<close>.
\<close>

definition js_div :: "real \<Rightarrow> real \<Rightarrow> error + real" where
  "js_div a b = (if b = 0 then Inl NonFinite else Inr (a / b))"

definition attractionForce :: real where "attractionForce = 0.06"
definition mouseRepelForce :: real where "mouseRepelForce = 4"
definition mouseRadius :: real where "mouseRadius = 120"
definition friction :: real where "friction = 0.92"
definition mouseRadiusSquared :: real where "mouseRadiusSquared = mouseRadius * mouseRadius"

text \<open>
  The block guarded by \<open>if (this.isMouseOver)\<close>, lines 287 to 298, its three quotients
  in the order the source evaluates them.
\<close>

definition mouse_interaction :: "real \<Rightarrow> real \<Rightarrow> Particle \<Rightarrow> error + Particle" where
  "mouse_interaction mX mY p =
     (let mouseDx = x p - mX;
          mouseDy = y p - mY;
          mouseDistSquared = mouseDx * mouseDx + mouseDy * mouseDy
      in if mouseDistSquared < mouseRadiusSquared then
           (let mouseDist = sqrt mouseDistSquared in
            case js_div (mouseRadius - mouseDist) mouseRadius of
              Inl e \<Rightarrow> Inl e
            | Inr force \<Rightarrow>
            (case js_div mouseDx (mouseDist + 0.1) of
              Inl e \<Rightarrow> Inl e
            | Inr ux \<Rightarrow>
            (case js_div mouseDy (mouseDist + 0.1) of
              Inl e \<Rightarrow> Inl e
            | Inr uy \<Rightarrow>
                (let q1 = p\<lparr>vx := vx p + ux * force * mouseRepelForce\<rparr>;
                     q2 = q1\<lparr>vy := vy q1 + uy * force * mouseRepelForce\<rparr>;
                     q3 = q2\<lparr>vz := vz q2 + force * mouseRepelForce * 0.5\<rparr>
                 in Inr q3))))
         else Inr p)"

text \<open>The body of the loop over the particles, lines 275 to 309, one assignment per line.\<close>

definition update_particle :: "bool \<Rightarrow> real \<Rightarrow> real \<Rightarrow> Particle \<Rightarrow> error + Particle" where
  "update_particle over mX mY p =
     (let dx = originX p - x p;
          dy = originY p - y p;
          dz = originZ p - z p;
          p1 = p\<lparr>vx := vx p + dx * attractionForce\<rparr>;
          p2 = p1\<lparr>vy := vy p1 + dy * attractionForce\<rparr>;
          p3 = p2\<lparr>vz := vz p2 + dz * attractionForce * 0.5\<rparr>
      in case (if over then mouse_interaction mX mY p3 else Inr p3) of
           Inl e \<Rightarrow> Inl e
         | Inr p4 \<Rightarrow>
             (let p5 = p4\<lparr>vx := vx p4 * friction\<rparr>;
                  p6 = p5\<lparr>vy := vy p5 * friction\<rparr>;
                  p7 = p6\<lparr>vz := vz p6 * friction\<rparr>;
                  p8 = p7\<lparr>x := x p7 + vx p7\<rparr>;
                  p9 = p8\<lparr>y := y p8 + vy p8\<rparr>;
                  p10 = p9\<lparr>z := z p9 + vz p9\<rparr>
              in Inr p10))"

text \<open>
  \<open>for (let i = 0; i < this.particleCount; i++)\<close>: the bound is the field
  \<open>particleCount\<close>, not the length of the array, and \<open>this.particles[i]\<close> beyond the
  array is \<open>undefined\<close>, whose property read raises a TypeError.
\<close>

function physics_loop :: "nat \<Rightarrow> State \<Rightarrow> error + State" where
  "physics_loop i s =
     (if i < particleCount s then
        (if i < length (particles s) then
           (case update_particle (isMouseOver s) (mouseX s) (mouseY s) (particles s ! i) of
              Inl e \<Rightarrow> Inl e
            | Inr p \<Rightarrow> physics_loop (Suc i) (s\<lparr>particles := (particles s)[i := p]\<rparr>))
         else Inl TypeError)
      else Inr s)"
  by pat_completeness auto
termination
  by (relation "measure (\<lambda>(i, s). particleCount s - i)") auto

text \<open>
  \<open>animate\<close>: the physics loop, the draw call with \<open>particleCount\<close> vertices, and the
  request for the next frame, whose handle is stored in \<open>animationId\<close>. Uploading the
  vertex data and setting attributes and uniforms change none of the modelled fields.
\<close>

definition requestAnimationFrame :: "State \<Rightarrow> State" where
  "requestAnimationFrame s =
     s\<lparr>animationId := next_handle s,
       scheduled := scheduled s @ [next_handle s],
       next_handle := Suc (next_handle s)\<rparr>"

definition animate :: "State \<Rightarrow> error + State" where
  "animate s =
     (case physics_loop 0 s of
        Inl e \<Rightarrow> Inl e
      | Inr s1 \<Rightarrow> Inr (requestAnimationFrame (s1\<lparr>draws := draws s1 @ [particleCount s1]\<rparr>)))"

section \<open>\<open>createParticles\<close>\<close>

text \<open>
  \<open>pixelData[i]\<close> on a \<open>Uint8ClampedArray\<close>: a byte when \<open>i\<close> is an integer within the
  array, \<open>undefined\<close> otherwise (the index is a number, and need not be whole).
\<close>

definition typed_get :: "8 word list \<Rightarrow> real \<Rightarrow> 8 word option" where
  "typed_get d i =
     (if real_of_int \<lfloor>i\<rfloor> = i \<and> 0 \<le> i \<and> i < real (length d)
      then Some (d ! nat \<lfloor>i\<rfloor>) else None)"

text \<open>A colour channel, \<open>pixelData[i] / 255\<close>; \<open>undefined / 255\<close> is NaN.\<close>

definition channel :: "8 word list \<Rightarrow> real \<Rightarrow> error + real" where
  "channel d i =
     (case typed_get d i of None \<Rightarrow> Inl NotANumber | Some b \<Rightarrow> Inr (real (unat b) / 255))"

text \<open>The local constants of \<open>createParticles\<close> that the two loops read.\<close>

record Sampling =
  pixelData :: "8 word list"
  logoWidth :: real
  logoHeight :: real
  offsetX :: real
  offsetY :: real

text \<open>
  The body of the inner loop, lines 207 to 231, at column \<open>xi\<close> of row \<open>yi\<close>. The
  index and the coordinates are computed in double precision. The comparison
  \<open>undefined > 128\<close> is false. \<open>Math.random\<close> is called for \<open>z\<close> first and for \<open>size\<close>
  second.
\<close>

definition sample_pixel :: "Env \<Rightarrow> Sampling \<Rightarrow> nat \<Rightarrow> nat \<Rightarrow> State \<Rightarrow> error + State" where
  "sample_pixel env L yi xi s =
     (let pixelIndex = fmul (fadd (fmul (real yi) (logoWidth L)) (real xi)) 4 in
      case typed_get (pixelData L) (fadd pixelIndex 3) of
        None \<Rightarrow> Inr s
      | Some alpha \<Rightarrow>
          if 128 < unat alpha then
            (case channel (pixelData L) pixelIndex of
               Inl e \<Rightarrow> Inl e
             | Inr red \<Rightarrow>
            (case channel (pixelData L) (fadd pixelIndex 1) of
               Inl e \<Rightarrow> Inl e
             | Inr green \<Rightarrow>
            (case channel (pixelData L) (fadd pixelIndex 2) of
               Inl e \<Rightarrow> Inl e
             | Inr blue \<Rightarrow>
                 (let zr = (random env (rng s) * 2 - 1) * 20 in
                  Inr (s\<lparr>particles := particles s @
                         [\<lparr>x = fadd (offsetX L) (real xi),
                           y = fadd (offsetY L) (real yi),
                           z = zr,
                           vx = 0, vy = 0, vz = 0,
                           originX = fadd (offsetX L) (real xi),
                           originY = fadd (offsetY L) (real yi),
                           originZ = 0,
                           color = (red, green, blue, 1),
                           psize = random env (Suc (rng s)) * 1.5 + 0.9\<rparr>],
                        rng := rng s + 2\<rparr>)))))
          else Inr s)"

text \<open>\<open>for (let x = 0; x < logoWidth; x += particleGap)\<close> with \<open>particleGap = 1\<close>.\<close>

function columns_loop :: "Env \<Rightarrow> Sampling \<Rightarrow> nat \<Rightarrow> nat \<Rightarrow> State \<Rightarrow> error + State" where
  "columns_loop env L yi xi s =
     (if real xi < logoWidth L then
        (case sample_pixel env L yi xi s of
           Inl e \<Rightarrow> Inl e
         | Inr s' \<Rightarrow> columns_loop env L yi (Suc xi) s')
      else Inr s)"
  by pat_completeness auto
termination
proof (relation "measure (\<lambda>(env, L, yi, xi, s). nat \<lceil>logoWidth L\<rceil> - xi)")
  show "wf (measure (\<lambda>(env, L, yi, xi, s). nat \<lceil>logoWidth L\<rceil> - xi))"
    by simp
next
  fix env :: Env and L :: Sampling and yi xi :: nat and s s' :: State
  assume "real xi < logoWidth L"
  then have "xi < nat \<lceil>logoWidth L\<rceil>"
    by linarith
  then show "((env, L, yi, Suc xi, s'), (env, L, yi, xi, s))
        \<in> measure (\<lambda>(env, L, yi, xi, s). nat \<lceil>logoWidth L\<rceil> - xi)"
    by simp
qed

text \<open>\<open>for (let y = 0; y < logoHeight; y += particleGap)\<close>.\<close>

function rows_loop :: "Env \<Rightarrow> Sampling \<Rightarrow> nat \<Rightarrow> State \<Rightarrow> error + State" where
  "rows_loop env L yi s =
     (if real yi < logoHeight L then
        (case columns_loop env L yi 0 s of
           Inl e \<Rightarrow> Inl e
         | Inr s' \<Rightarrow> rows_loop env L (Suc yi) s')
      else Inr s)"
  by pat_completeness auto
termination
proof (relation "measure (\<lambda>(env, L, yi, s). nat \<lceil>logoHeight L\<rceil> - yi)")
  show "wf (measure (\<lambda>(env, L, yi, s). nat \<lceil>logoHeight L\<rceil> - yi))"
    by simp
next
  fix env :: Env and L :: Sampling and yi :: nat and s s' :: State
  assume "real yi < logoHeight L"
  then have "yi < nat \<lceil>logoHeight L\<rceil>"
    by linarith
  then show "((env, L, Suc yi, s'), (env, L, yi, s))
        \<in> measure (\<lambda>(env, L, yi, s). nat \<lceil>logoHeight L\<rceil> - yi)"
    by simp
qed

text \<open>
  Lines 183 to 200: the scale, the scaled size and the offsets, in double precision;
  the literal \<open>0.9\<close> is the double nearest to it.
\<close>

definition logo_scale :: "Env \<Rightarrow> State \<Rightarrow> real" where
  "logo_scale env s =
     min (fdiv (fmul (real (canvas_width s)) (fl 0.9)) (real (logo_width env)))
         (fdiv (fmul (real (canvas_height s)) (fl 0.9)) (real (logo_height env)))"

definition sampling :: "Env \<Rightarrow> State \<Rightarrow> 8 word list \<Rightarrow> Sampling" where
  "sampling env s d =
     (let scale = logo_scale env s;
          logoWidth = fmul (real (logo_width env)) scale;
          logoHeight = fmul (real (logo_height env)) scale
      in \<lparr>pixelData = d,
          logoWidth = logoWidth,
          logoHeight = logoHeight,
          offsetX = fdiv (fsub (real (canvas_width s)) logoWidth) 2,
          offsetY = fdiv (fsub (real (canvas_height s)) logoHeight) 2\<rparr>)"

text \<open>
  \<open>createParticles\<close>. An image of width or height 0 makes a quotient infinite in the
  source; the scaled width or height is then 0 or NaN, an extent \<open>getImageData\<close>
  rejects, so the model raises there instead of dividing by zero. For every other
  image the host's answer to \<open>getImageData\<close> is the parameter \<open>getImageData env\<close>.
\<close>

definition createParticles :: "Env \<Rightarrow> State \<Rightarrow> error + State" where
  "createParticles env s0 =
     (let s = s0\<lparr>particles := []\<rparr> in
      if \<not> ctx2d env then Inr s
      else if logo_width env = 0 \<or> logo_height env = 0 then Inl DOMException
      else
        (let scale = logo_scale env s;
             lw = fmul (real (logo_width env)) scale;
             lh = fmul (real (logo_height env)) scale
         in case getImageData env lw lh of
              None \<Rightarrow> Inl DOMException
            | Some d \<Rightarrow>
                (case rows_loop env (sampling env s d) 0 s of
                   Inl e \<Rightarrow> Inl e
                 | Inr s' \<Rightarrow> Inr (s'\<lparr>particleCount := length (particles s')\<rparr>))))"

section \<open>Construction\<close>

definition createShader ::
  "Env \<Rightarrow> shader_type \<Rightarrow> console \<Rightarrow> console \<times> (error + shader_type)" where
  "createShader env t c =
     (if \<not> compile_status env t then
        (c @ [(''Shader compile error:'', shader_log env t)],
         Inl (Error ''Shader compilation failed''))
      else (c, Inr t))"

definition createProgram :: "Env \<Rightarrow> console \<Rightarrow> console \<times> (error + unit)" where
  "createProgram env c =
     (if \<not> link_status env then
        (c @ [(''Program link error:'', program_log env)],
         Inl (Error ''Program linking failed''))
      else (c, Inr ()))"

text \<open>The field initialisers of the class, on a host with nothing registered yet.\<close>

definition fields :: "Env \<Rightarrow> State" where
  "fields env =
     \<lparr>canvas_width = canvas_width0 env, canvas_height = canvas_height0 env,
      particles = [], mouseX = - 1000, mouseY = - 1000, animationId = 0,
      isMouseOver = False, particleCount = 0,
      mouseMoveHandler_field = False, mouseOutHandler_field = False,
      program_live = False, buffer_live = False,
      listening_mousemove = False, listening_mouseout = False,
      onload_set = False, scheduled = [], next_handle = 1, draws = [], rng = 0\<rparr>"

definition initWebGL :: "Env \<Rightarrow> State \<Rightarrow> console \<Rightarrow> console \<times> (error + State)" where
  "initWebGL env s c =
     (let s1 = s\<lparr>canvas_width := 350, canvas_height := 150\<rparr> in
      case createShader env VERTEX_SHADER c of
        (c1, Inl e) \<Rightarrow> (c1, Inl e)
      | (c1, Inr vertexShader) \<Rightarrow>
      (case createShader env FRAGMENT_SHADER c1 of
        (c2, Inl e) \<Rightarrow> (c2, Inl e)
      | (c2, Inr fragmentShader) \<Rightarrow>
      (case createProgram env c2 of
        (c3, Inl e) \<Rightarrow> (c3, Inl e)
      | (c3, Inr u) \<Rightarrow>
          (c3, Inr (s1\<lparr>program_live := True, buffer_live := True, onload_set := True\<rparr>)))))"

definition setupEventListeners :: "State \<Rightarrow> State" where
  "setupEventListeners s =
     s\<lparr>listening_mousemove := True, listening_mouseout := True,
       mouseMoveHandler_field := True, mouseOutHandler_field := True\<rparr>"

definition constructor :: "Env \<Rightarrow> console \<times> (error + State)" where
  "constructor env =
     (if \<not> webgl2 env then ([], Inl (Error ''WebGL2 not supported''))
      else
        (case initWebGL env (fields env) [] of
           (c, Inl e) \<Rightarrow> (c, Inl e)
         | (c, Inr s) \<Rightarrow> (c, Inr (setupEventListeners s))))"

section \<open>Events and teardown\<close>

definition mouseMoveHandler :: "real \<Rightarrow> real \<Rightarrow> real \<Rightarrow> real \<Rightarrow> State \<Rightarrow> State" where
  "mouseMoveHandler clientX clientY rect_left rect_top s =
     s\<lparr>mouseX := clientX - rect_left, mouseY := clientY - rect_top, isMouseOver := True\<rparr>"

definition mouseOutHandler :: "State \<Rightarrow> State" where
  "mouseOutHandler s = s\<lparr>isMouseOver := False, mouseX := - 1000, mouseY := - 1000\<rparr>"

text \<open>The \<open>onload\<close> handler installed by \<open>initWebGL\<close>.\<close>

definition onload :: "Env \<Rightarrow> State \<Rightarrow> error + State" where
  "onload env s =
     (case createParticles env s of Inl e \<Rightarrow> Inl e | Inr s1 \<Rightarrow> animate s1)"

text \<open>
  An animation frame: the host takes the waiting callbacks, each of which is
  \<open>() => this.animate()\<close>, and runs them; a callback that raises ends the run.
\<close>

fun run_callbacks :: "nat list \<Rightarrow> State \<Rightarrow> error + State" where
  "run_callbacks [] s = Inr s"
| "run_callbacks (h # hs) s =
     (case animate s of Inl e \<Rightarrow> Inl e | Inr s' \<Rightarrow> run_callbacks hs s')"

definition frame :: "State \<Rightarrow> error + State" where
  "frame s = run_callbacks (scheduled s) (s\<lparr>scheduled := []\<rparr>)"

definition cancelAnimationFrame :: "nat \<Rightarrow> State \<Rightarrow> State" where
  "cancelAnimationFrame h s = s\<lparr>scheduled := removeAll h (scheduled s)\<rparr>"

definition destroy :: "State \<Rightarrow> State" where
  "destroy s =
     (let s1 = cancelAnimationFrame (animationId s) s;
          s2 = s1\<lparr>program_live := False\<rparr>;
          s3 = s2\<lparr>buffer_live := False\<rparr>;
          s4 = (if mouseMoveHandler_field s3 then s3\<lparr>listening_mousemove := False\<rparr> else s3);
          s5 = (if mouseOutHandler_field s4 then s4\<lparr>listening_mouseout := False\<rparr> else s4)
      in s5)"

datatype event = Load | Frame | MouseMove real real real real | MouseOut | Destroy

fun handle :: "Env \<Rightarrow> event \<Rightarrow> State \<Rightarrow> error + State" where
  "handle env Load s = (if onload_set s then onload env s else Inr s)"
| "handle env Frame s = frame s"
| "handle env (MouseMove cx cy l t) s =
     Inr (if listening_mousemove s then mouseMoveHandler cx cy l t s else s)"
| "handle env MouseOut s = Inr (if listening_mouseout s then mouseOutHandler s else s)"
| "handle env Destroy s = Inr (destroy s)"

fun run :: "Env \<Rightarrow> event list \<Rightarrow> State \<Rightarrow> error + State" where
  "run env [] s = Inr s"
| "run env (ev # evs) s =
     (case handle env ev s of Inl e \<Rightarrow> Inl e | Inr s' \<Rightarrow> run env evs s')"

section \<open>The specification's reading of the physics step\<close>

text \<open>
  The four stages of section 4.2 of the specification, each written from its sentence,
  and their composition in the stated order: spring to origin, pointer repulsion
  (only while the pointer is over the surface and within the radius), friction,
  integration.
\<close>

definition spec_spring :: "Particle \<Rightarrow> Particle" where
  "spec_spring p =
     p\<lparr>vx := vx p + (originX p - x p) * 0.06,
       vy := vy p + (originY p - y p) * 0.06,
       vz := vz p + ((originZ p - z p) * 0.06) * 0.5\<rparr>"

definition spec_repulsion :: "bool \<Rightarrow> real \<times> real \<Rightarrow> Particle \<Rightarrow> Particle" where
  "spec_repulsion over pointer p =
     (let d = (x p - fst pointer, y p - snd pointer);
          norm2 = (fst d)\<^sup>2 + (snd d)\<^sup>2
      in if over \<and> norm2 < 120\<^sup>2 then
           (let dist = sqrt norm2;
                force = (120 - dist) / 120
            in p\<lparr>vx := vx p + (fst d / (dist + 0.1)) * force * 4,
                 vy := vy p + (snd d / (dist + 0.1)) * force * 4,
                 vz := vz p + force * 4 * 0.5\<rparr>)
         else p)"

definition spec_friction :: "Particle \<Rightarrow> Particle" where
  "spec_friction p = p\<lparr>vx := vx p * 0.92, vy := vy p * 0.92, vz := vz p * 0.92\<rparr>"

definition spec_integrate :: "Particle \<Rightarrow> Particle" where
  "spec_integrate p = p\<lparr>x := x p + vx p, y := y p + vy p, z := z p + vz p\<rparr>"

definition spec_step :: "bool \<Rightarrow> real \<times> real \<Rightarrow> Particle \<Rightarrow> Particle" where
  "spec_step over pointer p =
     spec_integrate (spec_friction (spec_repulsion over pointer (spec_spring p)))"

text \<open>The specification's threshold: an alpha above 50 percent of the maximum 255.\<close>

definition exceeds_half :: "8 word \<Rightarrow> bool" where
  "exceeds_half alpha \<longleftrightarrow> 0.5 * 255 < real (unat alpha)"

section \<open>Notions used to state the properties\<close>

text \<open>A particle at rest: at its origin, with no velocity.\<close>

definition at_rest :: "Particle \<Rightarrow> bool" where
  "at_rest p \<longleftrightarrow>
     x p = originX p \<and> y p = originY p \<and> z p = originZ p \<and> vx p = 0 \<and> vy p = 0 \<and> vz p = 0"

text \<open>\<open>n\<close> calls of \<open>animate\<close> in a row, one physics step each.\<close>

fun steps :: "nat \<Rightarrow> State \<Rightarrow> error + State" where
  "steps 0 s = Inr s"
| "steps (Suc n) s = (case animate s of Inl e \<Rightarrow> Inl e | Inr s' \<Rightarrow> steps n s')"

text \<open>
  What the loop body reads as \<open>alpha\<close> at column \<open>xi\<close> of row \<open>yi\<close> (lines 207 and 208),
  and its test \<open>alpha > 128\<close> (line 210).
\<close>

definition alpha_at :: "Sampling \<Rightarrow> nat \<Rightarrow> nat \<Rightarrow> 8 word option" where
  "alpha_at L yi xi =
     typed_get (pixelData L)
       (fadd (fmul (fadd (fmul (real yi) (logoWidth L)) (real xi)) 4) 3)"

definition emits :: "Sampling \<Rightarrow> nat \<Rightarrow> nat \<Rightarrow> bool" where
  "emits L yi xi = (case alpha_at L yi xi of None \<Rightarrow> False | Some alpha \<Rightarrow> 128 < unat alpha)"

text \<open>
  The object pushed at lines 218 to 230 for column \<open>xi\<close> of row \<open>yi\<close> when \<open>k\<close> calls of
  \<open>Math.random\<close> came before, colour aside.
\<close>

definition spawned :: "Env \<Rightarrow> Sampling \<Rightarrow> nat \<Rightarrow> nat \<Rightarrow> nat \<Rightarrow> Particle \<Rightarrow> bool" where
  "spawned env L yi xi k p \<longleftrightarrow>
     x p = fadd (offsetX L) (real xi) \<and> y p = fadd (offsetY L) (real yi) \<and>
     z p = (random env k * 2 - 1) * 20 \<and>
     vx p = 0 \<and> vy p = 0 \<and> vz p = 0 \<and>
     originX p = fadd (offsetX L) (real xi) \<and> originY p = fadd (offsetY L) (real yi) \<and>
     originZ p = 0 \<and>
     psize p = random env (Suc k) * 1.5 + 0.9"

text \<open>
  Whether the three colour bytes of the loop body (lines 211 to 213) are there to be
  read at column \<open>xi\<close> of row \<open>yi\<close>.
\<close>

definition reads_ok :: "Sampling \<Rightarrow> nat \<Rightarrow> nat \<Rightarrow> bool" where
  "reads_ok L yi xi \<longleftrightarrow>
     (let pixelIndex = fmul (fadd (fmul (real yi) (logoWidth L)) (real xi)) 4
      in typed_get (pixelData L) pixelIndex \<noteq> None \<and>
         typed_get (pixelData L) (fadd pixelIndex 1) \<noteq> None \<and>
         typed_get (pixelData L) (fadd pixelIndex 2) \<noteq> None)"

text \<open>The (row, column) pairs the two loops visit from row \<open>yi\<close> on, in order.\<close>

definition visits :: "Sampling \<Rightarrow> nat \<Rightarrow> (nat \<times> nat) list" where
  "visits L yi = List.product [yi..<nat \<lceil>logoHeight L\<rceil>] [0..<nat \<lceil>logoWidth L\<rceil>]"

text \<open>
  The alpha byte of the pixel at column \<open>xi\<close> of row \<open>yi\<close> in a bitmap \<open>W\<close> pixels wide,
  as \<open>ImageData\<close> stores it: rows from the top, four bytes (red, green, blue, alpha) per
  pixel.
\<close>

definition pixel_alpha :: "8 word list \<Rightarrow> nat \<Rightarrow> nat \<Rightarrow> nat \<Rightarrow> 8 word" where
  "pixel_alpha d W yi xi = d ! (4 * (yi * W + xi) + 3)"


text \<open>The object a successful construction yields.\<close>

definition constructed :: "Env \<Rightarrow> State" where
  "constructed env =
     (fields env)\<lparr>canvas_width := 350, canvas_height := 150,
       program_live := True, buffer_live := True, onload_set := True,
       listening_mousemove := True, listening_mouseout := True,
       mouseMoveHandler_field := True, mouseOutHandler_field := True\<rparr>"

section \<open>Sample inputs\<close>

text \<open>
  A host on which everything succeeds, with a logo one pixel wide and 135 pixels high:
  the scale is 1, the first pixel is opaque red, the second is green with alpha 128 and
  the others are transparent. \<open>Math.random\<close> returns 0 every time.
\<close>

definition sample_pixels :: "8 word list" where
  "sample_pixels = [255, 0, 0, 255, 0, 255, 0, 128] @ replicate 532 0"

definition sample_env :: Env where
  "sample_env =
     \<lparr>canvas_width0 = 300, canvas_height0 = 150, webgl2 = True,
      compile_status = (\<lambda>t. True), shader_log = (\<lambda>t. []),
      link_status = True, program_log = [], ctx2d = True,
      logo_width = 1, logo_height = 135,
      getImageData = (\<lambda>w h. Some sample_pixels),
      random = (\<lambda>k. 0)\<rparr>"

text \<open>The same host without a 2D context, and one whose fragment shader does not compile.\<close>

definition no2d_env :: Env where
  "no2d_env = sample_env\<lparr>ctx2d := False\<rparr>"

definition broken_env :: Env where
  "broken_env =
     sample_env\<lparr>compile_status := (\<lambda>t. t = VERTEX_SHADER),
                shader_log := (\<lambda>t. ''ERROR: 0:5: syntax error'')\<rparr>"

text \<open>The object constructed on the sample host, and what particle creation makes of it.\<close>

definition sample_state :: State where
  "sample_state =
     \<lparr>canvas_width = 350, canvas_height = 150, particles = [],
      mouseX = - 1000, mouseY = - 1000, animationId = 0,
      isMouseOver = False, particleCount = 0,
      mouseMoveHandler_field = True, mouseOutHandler_field = True,
      program_live = True, buffer_live = True,
      listening_mousemove = True, listening_mouseout = True,
      onload_set = True, scheduled = [], next_handle = 1, draws = [], rng = 0\<rparr>"

definition sample_sampling :: Sampling where
  "sample_sampling =
     \<lparr>pixelData = sample_pixels, logoWidth = 1, logoHeight = 135,
      offsetX = 349 / 2, offsetY = 15 / 2\<rparr>"

definition sample_particle :: Particle where
  "sample_particle =
     \<lparr>x = 349 / 2, y = 15 / 2, z = - 20, vx = 0, vy = 0, vz = 0,
      originX = 349 / 2, originY = 15 / 2, originZ = 0,
      color = (1, 0, 0, 1), psize = 9 / 10\<rparr>"

definition sample_created :: State where
  "sample_created = sample_state\<lparr>particles := [sample_particle], rng := 2, particleCount := 1\<rparr>"

text \<open>The same particle moved onto its origin.\<close>

definition rest_state :: State where
  "rest_state = sample_created\<lparr>particles := [sample_particle\<lparr>z := 0\<rparr>]\<rparr>"

section \<open>Rounding\<close>

text \<open>
  The exponent of a number that lies between two consecutive powers of two, and with
  it the value of \<open>fl\<close> at a given number.
\<close>

lemma binade_eq:
  assumes "2 powi e \<le> \<bar>v\<bar>" and "\<bar>v\<bar> < 2 powi (e + 1)"
  shows "binade v = e"
proof -
  have "(0::real) < 2 powi e"
    by simp
  then have pos: "0 < \<bar>v\<bar>"
    using assms(1) by linarith
  have "(2::real) powr (real_of_int e) = 2 powi e"
    by (simp add: powr_real_of_int')
  moreover have "(2::real) powr (real_of_int (e + 1)) = 2 powi (e + 1)"
    by (rule powr_real_of_int') simp_all
  ultimately have "2 powr (real_of_int e) \<le> \<bar>v\<bar>" "\<bar>v\<bar> < 2 powr (real_of_int e + 1)"
    using assms by simp_all
  then show ?thesis
    unfolding binade_def using floor_log_eq_powr_iff [of "\<bar>v\<bar>" 2 e] pos by simp
qed

lemma binade_less:
  assumes "v \<noteq> 0" and "\<bar>v\<bar> < 2 powi e"
  shows "binade v < e"
proof -
  have "log 2 \<bar>v\<bar> < real_of_int e"
    using assms by (simp add: log_less_iff powr_real_of_int')
  then show ?thesis
    by (simp add: binade_def floor_less_iff)
qed

lemma fl_eval:
  assumes "2 powi e \<le> \<bar>v\<bar>" and "\<bar>v\<bar> < 2 powi (e + 1)"
    and "round_even (v / 2 powi (e - 52)) = m"
  shows "fl v = 2 powi (e - 52) * of_int m"
proof -
  have "(0::real) < 2 powi e"
    by simp
  then have "0 < \<bar>v\<bar>"
    using assms(1) by linarith
  then have "v \<noteq> 0"
    by simp
  moreover have "binade v = e"
    using assms(1,2) by (rule binade_eq)
  ultimately show ?thesis
    using assms(3) by (simp add: fl_def Let_def)
qed

text \<open>
  A whole number below \<open>2 ^ 53\<close> in absolute value, scaled by a power of two, is
  representable: rounding leaves it as it is.
\<close>

lemma round_even_of_int [simp]: "round_even (of_int m) = m"
  by (simp add: round_even_def)

lemma fl_exact:
  assumes "\<bar>n\<bar> < 2 ^ 53"
  shows "fl (of_int n * 2 powi k) = of_int n * 2 powi k"
proof (cases "n = 0")
  case True
  then show ?thesis by (simp add: fl_def)
next
  case False
  let ?v = "real_of_int n * 2 powi k"
  have v0: "?v \<noteq> 0"
    using False by simp
  have "\<bar>?v\<bar> = real_of_int \<bar>n\<bar> * 2 powi k"
    by (simp add: abs_mult)
  also have "\<dots> < 2 ^ 53 * 2 powi k"
  proof -
    have "real_of_int \<bar>n\<bar> < real_of_int (2 ^ 53)"
      using assms by (simp only: of_int_less_iff)
    then show ?thesis by simp
  qed
  also have "\<dots> = 2 powi (53 + k)"
    by (simp add: power_int_add)
  finally have "binade ?v < 53 + k"
    using v0 by (intro binade_less)
  then have "0 \<le> k - (binade ?v - 52)"
    by simp
  then obtain j where j: "k - (binade ?v - 52) = int j"
    by (rule nonneg_int_cases)
  have "?v / 2 powi (binade ?v - 52) = real_of_int n * 2 powi (k - (binade ?v - 52))"
    by (simp add: power_int_diff)
  also have "\<dots> = real_of_int (n * 2 ^ j)"
    by (simp only: j power_int_of_nat) simp
  finally have q: "?v / 2 powi (binade ?v - 52) = real_of_int (n * 2 ^ j)" .
  have "fl ?v = 2 powi (binade ?v - 52) * real_of_int (n * 2 ^ j)"
    using v0 by (simp only: fl_def Let_def q round_even_of_int if_False)
  also have "\<dots> = 2 powi (binade ?v - 52) * (?v / 2 powi (binade ?v - 52))"
    by (simp only: q)
  also have "\<dots> = ?v"
    by simp
  finally show ?thesis .
qed

lemma fl_of_int: "\<bar>n\<bar> < 2 ^ 53 \<Longrightarrow> fl (of_int n) = of_int n"
  using fl_exact [of n 0] by simp

lemma fl_of_nat: "n < 2 ^ 53 \<Longrightarrow> fl (real n) = real n"
  using fl_of_int [of "int n"] by simp

lemma fl_numeral: "(numeral w :: int) < 2 ^ 53 \<Longrightarrow> fl (numeral w) = numeral w"
  using fl_of_int [of "numeral w"] by simp

lemma fl_0 [simp]: "fl 0 = 0" by (simp add: fl_def)
lemma fl_1 [simp]: "fl 1 = 1" using fl_of_int [of 1] by simp

lemma fl_half: "(numeral w :: int) < 2 ^ 53 \<Longrightarrow> fl (numeral w / 2) = numeral w / 2"
  using fl_exact [of "numeral w" "- 1"] by (simp add: power_int_minus)

text \<open>
  The literal \<open>0.9\<close> as a double, and its products with the canvas sizes 350 and 150.
\<close>

lemma fl_09: "fl (9 / 10) = 8106479329266893 / 9007199254740992"
proof -
  have "fl (9 / 10) = 2 powi (- 1 - 52) * of_int 8106479329266893"
    by (rule fl_eval) (simp_all add: power_int_minus round_even_def)
  then show ?thesis
    by (simp add: power_int_minus)
qed

lemma fl_315: "fl (350 * (8106479329266893 / 9007199254740992)) = 315"
proof -
  have "fl (350 * (8106479329266893 / 9007199254740992)) =
      2 powi (8 - 52) * of_int 5541538603991040"
    by (rule fl_eval) (simp_all add: power_int_minus round_even_def)
  then show ?thesis
    by (simp add: power_int_minus)
qed

lemma fl_135: "fl (150 * (8106479329266893 / 9007199254740992)) = 135"
proof -
  have "fl (150 * (8106479329266893 / 9007199254740992)) =
      2 powi (7 - 52) * of_int 4749890231992320"
    by (rule fl_eval) (simp_all add: power_int_minus round_even_def)
  then show ?thesis
    by (simp add: power_int_minus)
qed

lemma fl_350_09: "fl (350 * fl (9 / 10)) = 315"
  by (simp only: fl_09 fl_315)

lemma fl_150_09: "fl (150 * fl (9 / 10)) = 135"
  by (simp only: fl_09 fl_135)

lemmas fl_simps = fadd_def fsub_def fmul_def fdiv_def fl_numeral fl_half fl_350_09 fl_150_09

section \<open>The physics step\<close>

lemmas constants_defs =
  attractionForce_def mouseRepelForce_def mouseRadius_def friction_def mouseRadiusSquared_def

lemma abs_le_sqrt_sum: "\<bar>a\<bar> \<le> sqrt (a * a + b * b)"
proof -
  have "a * a \<le> a * a + b * b" by simp
  then have "sqrt (a * a) \<le> sqrt (a * a + b * b)" by (rule real_sqrt_le_mono)
  then show ?thesis by simp
qed

subsection \<open>The quotients of the pointer block\<close>

lemma js_div_Inr: "b \<noteq> 0 \<Longrightarrow> js_div a b = Inr (a / b)"
  by (simp add: js_div_def)

lemma divisor_nonzero: "sqrt (a * a + b * b) + 0.1 \<noteq> 0"
proof -
  have "0 \<le> sqrt (a * a + b * b)" by simp
  then show ?thesis by linarith
qed

lemma mouse_interaction_inside:
  assumes "(x p - mX) * (x p - mX) + (y p - mY) * (y p - mY) < mouseRadiusSquared"
  shows "mouse_interaction mX mY p =
    Inr (p\<lparr>vx := vx p + ((x p - mX) / (sqrt ((x p - mX) * (x p - mX) + (y p - mY) * (y p - mY)) + 0.1))
            * ((mouseRadius - sqrt ((x p - mX) * (x p - mX) + (y p - mY) * (y p - mY))) / mouseRadius)
            * mouseRepelForce,
      vy := vy p + ((y p - mY) / (sqrt ((x p - mX) * (x p - mX) + (y p - mY) * (y p - mY)) + 0.1))
            * ((mouseRadius - sqrt ((x p - mX) * (x p - mX) + (y p - mY) * (y p - mY))) / mouseRadius)
            * mouseRepelForce,
      vz := vz p + ((mouseRadius - sqrt ((x p - mX) * (x p - mX) + (y p - mY) * (y p - mY))) / mouseRadius)
            * mouseRepelForce * 0.5\<rparr>)"
proof -
  have r: "mouseRadius \<noteq> 0"
    by (simp add: mouseRadius_def)
  note d = divisor_nonzero [of "x p - mX" "y p - mY"]
  show ?thesis
    using assms by (simp add: mouse_interaction_def Let_def js_div_Inr [OF r] js_div_Inr [OF d])
qed

lemma mouse_interaction_outside:
  assumes "\<not> (x p - mX) * (x p - mX) + (y p - mY) * (y p - mY) < mouseRadiusSquared"
  shows "mouse_interaction mX mY p = Inr p"
  using assms by (simp add: mouse_interaction_def Let_def)

subsection \<open>The loop body against the specification\<close>

lemma mouse_interaction_spec:
  "mouse_interaction mX mY p = Inr (spec_repulsion True (mX, mY) p)"
proof (cases "(x p - mX) * (x p - mX) + (y p - mY) * (y p - mY) < mouseRadiusSquared")
  case True
  have "spec_repulsion True (mX, mY) p =
    p\<lparr>vx := vx p + ((x p - mX) / (sqrt ((x p - mX) * (x p - mX) + (y p - mY) * (y p - mY)) + 0.1))
            * ((mouseRadius - sqrt ((x p - mX) * (x p - mX) + (y p - mY) * (y p - mY))) / mouseRadius)
            * mouseRepelForce,
      vy := vy p + ((y p - mY) / (sqrt ((x p - mX) * (x p - mX) + (y p - mY) * (y p - mY)) + 0.1))
            * ((mouseRadius - sqrt ((x p - mX) * (x p - mX) + (y p - mY) * (y p - mY))) / mouseRadius)
            * mouseRepelForce,
      vz := vz p + ((mouseRadius - sqrt ((x p - mX) * (x p - mX) + (y p - mY) * (y p - mY))) / mouseRadius)
            * mouseRepelForce * 0.5\<rparr>"
    using True
    unfolding spec_repulsion_def Let_def fst_conv snd_conv power2_eq_square constants_defs
    by (simp only: simp_thms if_True)
  then show ?thesis
    by (simp only: mouse_interaction_inside [OF True])
next
  case False
  then have "spec_repulsion True (mX, mY) p = p"
    unfolding spec_repulsion_def Let_def fst_conv snd_conv power2_eq_square constants_defs
    by (simp only: simp_thms if_False)
  then show ?thesis
    by (simp only: mouse_interaction_outside [OF False])
qed

lemma spec_repulsion_off: "spec_repulsion False pointer p = p"
  by (simp add: spec_repulsion_def Let_def)

lemma update_particle_spec: "update_particle over mX mY p = Inr (spec_step over (mX, mY) p)"
proof -
  have "(if over then mouse_interaction mX mY q else Inr q) =
      Inr (spec_repulsion over (mX, mY) q)" for q
    by (simp add: mouse_interaction_spec spec_repulsion_off)
  then show ?thesis
    by (simp add: update_particle_def spec_step_def spec_integrate_def spec_friction_def
        spec_spring_def attractionForce_def friction_def Let_def)
qed

declare physics_loop.simps [simp del]

text \<open>
  With \<open>particleCount\<close> equal to the length of the array, the loop replaces every
  particle by its update and raises nothing.
\<close>

lemma physics_loop_map:
  "particleCount s = length (particles s) \<Longrightarrow> i \<le> length (particles s) \<Longrightarrow>
   physics_loop i s =
     Inr (s\<lparr>particles := take i (particles s) @
            map (spec_step (isMouseOver s) (mouseX s, mouseY s)) (drop i (particles s))\<rparr>)"
proof (induction i s rule: physics_loop.induct)
  case (1 i s)
  let ?f = "spec_step (isMouseOver s) (mouseX s, mouseY s)"
  show ?case
  proof (cases "i < length (particles s)")
    case True
    let ?s' = "s\<lparr>particles := (particles s)[i := ?f (particles s ! i)]\<rparr>"
    have up: "update_particle (isMouseOver s) (mouseX s) (mouseY s) (particles s ! i) =
        Inr (?f (particles s ! i))"
      by (rule update_particle_spec)
    have step: "physics_loop i s = physics_loop (Suc i) ?s'"
      using True "1.prems" by (subst physics_loop.simps) (simp add: up)
    have ih: "physics_loop (Suc i) ?s' =
        Inr (?s'\<lparr>particles := take (Suc i) (particles ?s') @ map ?f (drop (Suc i) (particles ?s'))\<rparr>)"
      using "1.IH" [OF _ _ up] True "1.prems" by simp
    have "take (Suc i) (particles ?s') = take i (particles s) @ [?f (particles s ! i)]"
      using True by (simp add: take_Suc_conv_app_nth)
    moreover have "drop i (particles s) = particles s ! i # drop (Suc i) (particles s)"
      using True by (simp add: Cons_nth_drop_Suc)
    ultimately show ?thesis
      using step ih by simp
  next
    case False
    then have "i = length (particles s)" using "1.prems" by simp
    then show ?thesis using "1.prems" by (subst physics_loop.simps) simp
  qed
qed

lemma animate_map:
  assumes "particleCount s = length (particles s)"
  shows "animate s = Inr (requestAnimationFrame
     (s\<lparr>particles := map (spec_step (isMouseOver s) (mouseX s, mouseY s)) (particles s),
        draws := draws s @ [particleCount s]\<rparr>))"
  using physics_loop_map [OF assms, of 0] by (simp add: animate_def)

text \<open>
  Claim C1. One call of \<open>animate\<close> returns, and every particle has gone through
  exactly the four stages of the specification in their order, with the constants
  0.06, 4, 120 and 0.92: spring to origin (the z component halved), pointer repulsion
  when it applies, friction on the three axes and nothing else, then position plus
  velocity.
\<close>

theorem physics_step_order:
  assumes "particleCount s = length (particles s)"
  shows "\<exists>s'. animate s = Inr s' \<and>
           particles s' = map (spec_step (isMouseOver s) (mouseX s, mouseY s)) (particles s)"
  using animate_map [OF assms] by (simp add: requestAnimationFrame_def)

subsection \<open>Rest state\<close>

lemma spec_step_at_rest: "at_rest p \<Longrightarrow> spec_step False pointer p = p"
  by (simp add: spec_step_def spec_integrate_def spec_friction_def spec_repulsion_off
      spec_spring_def at_rest_def)

lemma animate_at_rest:
  assumes "particleCount s = length (particles s)" and "\<not> isMouseOver s"
    and "\<forall>p \<in> set (particles s). at_rest p"
  shows "animate s = Inr (requestAnimationFrame (s\<lparr>draws := draws s @ [particleCount s]\<rparr>))"
proof -
  have "map (spec_step (isMouseOver s) (mouseX s, mouseY s)) (particles s) = particles s"
    using assms(2,3) by (simp add: spec_step_at_rest map_idI)
  then show ?thesis
    using animate_map [OF assms(1)] by simp
qed

text \<open>
  Claim C3. When every particle is at its origin with zero velocity and the pointer is
  not over the surface, any number of physics steps returns and leaves the particles,
  positions and velocities alike, as they were.
\<close>

theorem rest_state_fixed:
  "particleCount s = length (particles s) \<Longrightarrow> \<not> isMouseOver s \<Longrightarrow>
   \<forall>p \<in> set (particles s). at_rest p \<Longrightarrow>
   \<exists>s'. steps n s = Inr s' \<and> particles s' = particles s"
proof (induction n arbitrary: s)
  case 0
  then show ?case by simp
next
  case (Suc n)
  let ?s1 = "requestAnimationFrame (s\<lparr>draws := draws s @ [particleCount s]\<rparr>)"
  have a: "animate s = Inr ?s1"
    using Suc.prems by (rule animate_at_rest)
  have "\<exists>s'. steps n ?s1 = Inr s' \<and> particles s' = particles ?s1"
    using Suc.prems by (intro Suc.IH) (simp_all add: requestAnimationFrame_def)
  then show ?case
    using a by (simp add: requestAnimationFrame_def)
qed

subsection \<open>Pointer repulsion\<close>

lemma repel_term_bound:
  assumes "\<bar>a\<bar> \<le> d" and "0 \<le> d" and "d < 120"
  shows "\<bar>(a / (d + 0.1)) * ((mouseRadius - d) / mouseRadius) * mouseRepelForce\<bar> \<le> (4::real)"
proof -
  define A where "A = a / (d + 0.1)"
  define B where "B = (mouseRadius - d) / mouseRadius"
  have 1: "\<bar>A\<bar> \<le> 1"
    using assms by (simp add: A_def field_simps)
  have 2: "\<bar>B\<bar> \<le> 1"
    using assms by (simp add: B_def mouseRadius_def field_simps abs_if)
  have "\<bar>A\<bar> * \<bar>B\<bar> \<le> 1 * 1"
    using 1 2 by (intro mult_mono) simp_all
  then have "\<bar>A * B * 4\<bar> \<le> 4"
    by (simp add: abs_mult)
  then show ?thesis
    by (simp add: A_def B_def mouseRepelForce_def)
qed

text \<open>
  Claim C4. For every particle and every pointer position the pointer block returns a
  particle: none of its three quotients has divisor 0, so no infinity or NaN arises.
  The block changes each of \<open>vx\<close> and \<open>vy\<close> by at most 4 and \<open>vz\<close> by between 0 and 2; at
  distance exactly \<open>mouseRadius\<close> from the pointer it leaves the particle as it is; and
  at distance 0 it gives no push in x and y and 2 in z.
\<close>

theorem repulsion_boundary:
  "(\<exists>q. mouse_interaction mX mY p = Inr q \<and>
        \<bar>vx q - vx p\<bar> \<le> 4 \<and> \<bar>vy q - vy p\<bar> \<le> 4 \<and>
        0 \<le> vz q - vz p \<and> vz q - vz p \<le> 2 \<and>
        (sqrt ((x p - mX) * (x p - mX) + (y p - mY) * (y p - mY)) = mouseRadius \<longrightarrow> q = p)) \<and>
   mouse_interaction (x r) (y r) r = Inr (r\<lparr>vz := vz r + 2\<rparr>)"
proof
  let ?a = "x p - mX" and ?b = "y p - mY"
  let ?d2 = "?a * ?a + ?b * ?b"
  let ?d = "sqrt ?d2"
  have d0: "0 \<le> ?d" by simp
  show "\<exists>q. mouse_interaction mX mY p = Inr q \<and>
        \<bar>vx q - vx p\<bar> \<le> 4 \<and> \<bar>vy q - vy p\<bar> \<le> 4 \<and>
        0 \<le> vz q - vz p \<and> vz q - vz p \<le> 2 \<and> (?d = mouseRadius \<longrightarrow> q = p)"
  proof (cases "?d2 < mouseRadiusSquared")
    case False
    then have "mouse_interaction mX mY p = Inr p"
      by (rule mouse_interaction_outside)
    then show ?thesis by simp
  next
    case True
    then have "?d < sqrt (120 * 120)"
      unfolding constants_defs by (rule real_sqrt_less_mono)
    then have d120: "?d < 120" by simp
    have ba: "\<bar>?a\<bar> \<le> ?d" by (rule abs_le_sqrt_sum)
    have bb: "\<bar>?b\<bar> \<le> ?d" using abs_le_sqrt_sum [of ?b ?a] by (simp add: add.commute)
    define q where "q = p\<lparr>vx := vx p + (?a / (?d + 0.1)) * ((mouseRadius - ?d) / mouseRadius)
            * mouseRepelForce,
      vy := vy p + (?b / (?d + 0.1)) * ((mouseRadius - ?d) / mouseRadius) * mouseRepelForce,
      vz := vz p + ((mouseRadius - ?d) / mouseRadius) * mouseRepelForce * 0.5\<rparr>"
    have mi: "mouse_interaction mX mY p = Inr q"
      unfolding q_def using True by (rule mouse_interaction_inside)
    have "\<bar>vx q - vx p\<bar> \<le> 4"
      using repel_term_bound [OF ba d0 d120] by (simp add: q_def)
    moreover have "\<bar>vy q - vy p\<bar> \<le> 4"
      using repel_term_bound [OF bb d0 d120] by (simp add: q_def)
    moreover have "0 \<le> vz q - vz p"
      using d120 by (simp add: q_def mouseRadius_def mouseRepelForce_def)
    moreover have "vz q - vz p \<le> 2"
      using d0 by (simp add: q_def mouseRadius_def mouseRepelForce_def)
    moreover have "?d \<noteq> mouseRadius"
      using d120 by (simp add: mouseRadius_def)
    ultimately show ?thesis
      using mi by simp
  qed
next
  have "(x r - x r) * (x r - x r) + (y r - y r) * (y r - y r) < mouseRadiusSquared"
    by (simp add: constants_defs)
  from mouse_interaction_inside [OF this] show "mouse_interaction (x r) (y r) r = Inr (r\<lparr>vz := vz r + 2\<rparr>)"
    by (simp add: constants_defs)
qed

section \<open>Particle creation\<close>

declare columns_loop.simps [simp del] rows_loop.simps [simp del]

subsection \<open>Reads of the pixel array\<close>

lemma channel_Inr: "typed_get d i \<noteq> None \<Longrightarrow> \<exists>c. channel d i = Inr c"
proof -
  assume "typed_get d i \<noteq> None"
  then obtain b where "typed_get d i = Some b"
    by blast
  then have "channel d i = Inr (real (unat b) / 255)"
    by (simp add: channel_def)
  then show ?thesis ..
qed

lemma channel_Inl: "typed_get d i = None \<Longrightarrow> channel d i = Inl NotANumber"
  by (simp add: channel_def)

lemma channel_error: "channel d i = Inl e \<Longrightarrow> e = NotANumber"
  by (simp add: channel_def split: option.splits)

lemma typed_get_nat: "typed_get d (real n) = (if n < length d then Some (d ! n) else None)"
  by (simp add: typed_get_def)

subsection \<open>The loop body and the two loops\<close>

text \<open>
  A visit of the loop body pushes nothing, or stops because a colour byte is missing,
  or pushes one particle; the loops add up the visits.
\<close>

lemma sample_pixel_cases:
  "(\<not> emits L yi xi \<and> sample_pixel env L yi xi s = Inr s) \<or>
   (emits L yi xi \<and> \<not> reads_ok L yi xi \<and> sample_pixel env L yi xi s = Inl NotANumber) \<or>
   (emits L yi xi \<and> reads_ok L yi xi \<and>
    (\<exists>p. sample_pixel env L yi xi s =
            Inr (s\<lparr>particles := particles s @ [p], rng := rng s + 2\<rparr>) \<and>
         spawned env L yi xi (rng s) p))"
proof (cases "emits L yi xi")
  case False
  then show ?thesis
    by (auto simp: sample_pixel_def emits_def alpha_at_def Let_def split: option.splits)
next
  case True
  define i where "i = fmul (fadd (fmul (real yi) (logoWidth L)) (real xi)) 4"
  from True obtain a where a: "typed_get (pixelData L) (fadd i 3) = Some a" and big: "128 < unat a"
    by (auto simp: emits_def alpha_at_def i_def split: option.splits)
  show ?thesis
  proof (cases "reads_ok L yi xi")
    case True
    then have "typed_get (pixelData L) i \<noteq> None" "typed_get (pixelData L) (fadd i 1) \<noteq> None"
      "typed_get (pixelData L) (fadd i 2) \<noteq> None"
      by (simp_all add: reads_ok_def Let_def i_def)
    then obtain r g b where r: "channel (pixelData L) i = Inr r"
      and g: "channel (pixelData L) (fadd i 1) = Inr g"
      and b: "channel (pixelData L) (fadd i 2) = Inr b"
      using channel_Inr by metis
    let ?p = "\<lparr>x = fadd (offsetX L) (real xi), y = fadd (offsetY L) (real yi),
             z = (random env (rng s) * 2 - 1) * 20, vx = 0, vy = 0, vz = 0,
             originX = fadd (offsetX L) (real xi), originY = fadd (offsetY L) (real yi),
             originZ = 0,
             color = (r, g, b, 1), psize = random env (Suc (rng s)) * 1.5 + 0.9\<rparr>"
    have "sample_pixel env L yi xi s =
          Inr (s\<lparr>particles := particles s @ [?p], rng := rng s + 2\<rparr>)"
      unfolding sample_pixel_def Let_def i_def [symmetric]
      using a big r g b by simp
    moreover have "spawned env L yi xi (rng s) ?p"
      by (simp add: spawned_def)
    ultimately show ?thesis
      using True \<open>emits L yi xi\<close> by blast
  next
    case False
    then have "typed_get (pixelData L) i = None \<or> typed_get (pixelData L) (fadd i 1) = None \<or>
      typed_get (pixelData L) (fadd i 2) = None"
      by (simp add: reads_ok_def Let_def i_def)
    then have "channel (pixelData L) i = Inl NotANumber \<or>
      channel (pixelData L) (fadd i 1) = Inl NotANumber \<or>
      channel (pixelData L) (fadd i 2) = Inl NotANumber"
      using channel_Inl by blast
    then have "sample_pixel env L yi xi s = Inl NotANumber"
      unfolding sample_pixel_def Let_def i_def [symmetric]
      using a big by (auto split: sum.splits dest: channel_error)
    then show ?thesis
      using False \<open>emits L yi xi\<close> by blast
  qed
qed

lemma upt_past: "\<not> real n < w \<Longrightarrow> [n..<nat \<lceil>w\<rceil>] = []"
proof -
  assume "\<not> real n < w"
  then have "nat \<lceil>w\<rceil> \<le> n" by linarith
  then show ?thesis by simp
qed

lemma upt_inside: "real n < w \<Longrightarrow> [n..<nat \<lceil>w\<rceil>] = n # [Suc n..<nat \<lceil>w\<rceil>]"
proof -
  assume "real n < w"
  then have "n < nat \<lceil>w\<rceil>" by linarith
  then show ?thesis by (rule upt_conv_Cons)
qed

lemma columns_loop_cases:
  "(columns_loop env L yi xi s = Inl NotANumber \<and>
      (\<exists>xj. real xj < logoWidth L \<and> emits L yi xj \<and> \<not> reads_ok L yi xj)) \<or>
   (\<exists>ps. columns_loop env L yi xi s =
              Inr (s\<lparr>particles := particles s @ ps, rng := rng s + 2 * length ps\<rparr>) \<and>
            length ps = length (filter (emits L yi) [xi..<nat \<lceil>logoWidth L\<rceil>]) \<and>
            (\<forall>p \<in> set ps. \<exists>xj k. real xj < logoWidth L \<and> spawned env L yi xj k p))"
proof (induction env L yi xi s rule: columns_loop.induct)
  case (1 env L yi xi s)
  show ?case
  proof (cases "real xi < logoWidth L")
    case False
    then have "columns_loop env L yi xi s = Inr s"
      by (subst columns_loop.simps) simp
    moreover have "filter (emits L yi) [xi..<nat \<lceil>logoWidth L\<rceil>] = []"
      by (simp only: upt_past [OF False] filter.simps)
    ultimately show ?thesis
      by (intro disjI2 exI [of _ "[]"]) simp
  next
    case True
    note up = upt_inside [OF True]
    from sample_pixel_cases [of L yi xi env s] show ?thesis
    proof (elim disjE conjE exE)
      assume ne: "\<not> emits L yi xi" and sp: "sample_pixel env L yi xi s = Inr s"
      have eq: "columns_loop env L yi xi s = columns_loop env L yi (Suc xi) s"
        using True sp by (subst columns_loop.simps) simp
      from "1.IH" [OF True sp] show ?thesis
      proof (elim disjE conjE exE)
        fix xj
        assume "columns_loop env L yi (Suc xi) s = Inl NotANumber"
          "real xj < logoWidth L" "emits L yi xj" "\<not> reads_ok L yi xj"
        then show ?thesis using eq by auto
      next
        fix ps
        assume "columns_loop env L yi (Suc xi) s =
               Inr (s\<lparr>particles := particles s @ ps, rng := rng s + 2 * length ps\<rparr>)"
          "length ps = length (filter (emits L yi) [Suc xi..<nat \<lceil>logoWidth L\<rceil>])"
          "\<forall>p \<in> set ps. \<exists>xj k. real xj < logoWidth L \<and> spawned env L yi xj k p"
        then show ?thesis
          using eq ne up by (intro disjI2 exI [of _ ps]) simp
      qed
    next
      assume "emits L yi xi" "\<not> reads_ok L yi xi" "sample_pixel env L yi xi s = Inl NotANumber"
      moreover from this have "columns_loop env L yi xi s = Inl NotANumber"
        using True by (subst columns_loop.simps) simp
      ultimately show ?thesis
        using True by blast
    next
      fix p
      assume e: "emits L yi xi"
        and sp: "sample_pixel env L yi xi s =
                   Inr (s\<lparr>particles := particles s @ [p], rng := rng s + 2\<rparr>)"
        and sw: "spawned env L yi xi (rng s) p"
      let ?s1 = "s\<lparr>particles := particles s @ [p], rng := rng s + 2\<rparr>"
      have eq: "columns_loop env L yi xi s = columns_loop env L yi (Suc xi) ?s1"
        using True sp by (subst columns_loop.simps) simp
      have here: "\<exists>xj k. real xj < logoWidth L \<and> spawned env L yi xj k p"
        using True sw by blast
      from "1.IH" [OF True sp] show ?thesis
      proof (elim disjE conjE exE)
        fix xj
        assume "columns_loop env L yi (Suc xi) ?s1 = Inl NotANumber"
          "real xj < logoWidth L" "emits L yi xj" "\<not> reads_ok L yi xj"
        then show ?thesis using eq by auto
      next
        fix ps
        assume "columns_loop env L yi (Suc xi) ?s1 =
               Inr (?s1\<lparr>particles := particles ?s1 @ ps, rng := rng ?s1 + 2 * length ps\<rparr>)"
          "length ps = length (filter (emits L yi) [Suc xi..<nat \<lceil>logoWidth L\<rceil>])"
          "\<forall>p \<in> set ps. \<exists>xj k. real xj < logoWidth L \<and> spawned env L yi xj k p"
        then show ?thesis
          using eq e up here by (intro disjI2 exI [of _ "p # ps"]) simp
      qed
    qed
  qed
qed

lemma rows_loop_cases:
  "(rows_loop env L yi s = Inl NotANumber \<and>
      (\<exists>yj xj. real yj < logoHeight L \<and> real xj < logoWidth L \<and>
         emits L yj xj \<and> \<not> reads_ok L yj xj)) \<or>
   (\<exists>ps. rows_loop env L yi s =
              Inr (s\<lparr>particles := particles s @ ps, rng := rng s + 2 * length ps\<rparr>) \<and>
            length ps = length (filter (\<lambda>(yj, xj). emits L yj xj) (visits L yi)) \<and>
            (\<forall>p \<in> set ps. \<exists>yj xj k. real yj < logoHeight L \<and> real xj < logoWidth L \<and>
                 spawned env L yj xj k p))"
proof (induction env L yi s rule: rows_loop.induct)
  case (1 env L yi s)
  show ?case
  proof (cases "real yi < logoHeight L")
    case False
    then have "rows_loop env L yi s = Inr s"
      by (subst rows_loop.simps) simp
    moreover have "visits L yi = []"
      by (simp only: visits_def upt_past [OF False] List.product.simps)
    ultimately show ?thesis
      by (intro disjI2 exI [of _ "[]"]) simp
  next
    case True
    from columns_loop_cases [of env L yi 0 s] show ?thesis
    proof (elim disjE conjE exE)
      fix xj
      assume "columns_loop env L yi 0 s = Inl NotANumber"
        "real xj < logoWidth L" "emits L yi xj" "\<not> reads_ok L yi xj"
      moreover from this have "rows_loop env L yi s = Inl NotANumber"
        using True by (subst rows_loop.simps) simp
      ultimately show ?thesis
        using True by blast
    next
      fix qs
      assume qs: "columns_loop env L yi 0 s =
             Inr (s\<lparr>particles := particles s @ qs, rng := rng s + 2 * length qs\<rparr>)"
        "length qs = length (filter (emits L yi) [0..<nat \<lceil>logoWidth L\<rceil>])"
        "\<forall>p \<in> set qs. \<exists>xj k. real xj < logoWidth L \<and> spawned env L yi xj k p"
      let ?s1 = "s\<lparr>particles := particles s @ qs, rng := rng s + 2 * length qs\<rparr>"
      have step: "rows_loop env L yi s = rows_loop env L (Suc yi) ?s1"
        using True qs(1) by (subst rows_loop.simps) simp
      from "1.IH" [OF True qs(1)] show ?thesis
      proof (elim disjE conjE exE)
        fix yj xj
        assume "rows_loop env L (Suc yi) ?s1 = Inl NotANumber"
          "real yj < logoHeight L" "real xj < logoWidth L" "emits L yj xj" "\<not> reads_ok L yj xj"
        then show ?thesis using step by auto
      next
        fix ps
        assume ps: "rows_loop env L (Suc yi) ?s1 =
             Inr (?s1\<lparr>particles := particles ?s1 @ ps, rng := rng ?s1 + 2 * length ps\<rparr>)"
          "length ps = length (filter (\<lambda>(yj, xj). emits L yj xj) (visits L (Suc yi)))"
          "\<forall>p \<in> set ps. \<exists>yj xj k. real yj < logoHeight L \<and> real xj < logoWidth L \<and>
               spawned env L yj xj k p"
        have vis: "visits L yi = map (Pair yi) [0..<nat \<lceil>logoWidth L\<rceil>] @ visits L (Suc yi)"
          by (simp add: visits_def upt_inside [OF True])
        have cnt: "length (qs @ ps) = length (filter (\<lambda>(yj, xj). emits L yj xj) (visits L yi))"
          using qs(2) ps(2) by (simp add: vis filter_map comp_def)
        have all: "\<forall>p \<in> set (qs @ ps). \<exists>yj xj k. real yj < logoHeight L \<and>
             real xj < logoWidth L \<and> spawned env L yj xj k p"
          using qs(3) ps(3) True by auto
        have "rows_loop env L yi s =
            Inr (s\<lparr>particles := particles s @ (qs @ ps), rng := rng s + 2 * length (qs @ ps)\<rparr>)"
          using step ps(1) by (simp add: algebra_simps)
        then show ?thesis
          using cnt all by blast
      qed
    qed
  qed
qed

subsection \<open>Scale and offsets\<close>

lemma sampling_particles [simp]: "sampling env (s\<lparr>particles := ps\<rparr>) d = sampling env s d"
  by (simp add: sampling_def logo_scale_def)

lemma logo_scale_particles [simp]: "logo_scale env (s\<lparr>particles := ps\<rparr>) = logo_scale env s"
  by (simp add: logo_scale_def)


subsection \<open>The whole of particle creation\<close>

lemma createParticles_cases:
  assumes "ctx2d env" and "0 < logo_width env" and "0 < logo_height env"
    and "getImageData env (fmul (real (logo_width env)) (logo_scale env s))
           (fmul (real (logo_height env)) (logo_scale env s)) = Some d"
  shows "(createParticles env s = Inl NotANumber \<and>
          (\<exists>yj xj. real yj < logoHeight (sampling env s d) \<and>
             real xj < logoWidth (sampling env s d) \<and>
             emits (sampling env s d) yj xj \<and> \<not> reads_ok (sampling env s d) yj xj)) \<or>
         (\<exists>ps. createParticles env s =
              Inr (s\<lparr>particles := ps, rng := rng s + 2 * length ps, particleCount := length ps\<rparr>) \<and>
            length ps = length (filter (\<lambda>(yj, xj). emits (sampling env s d) yj xj)
                                  (visits (sampling env s d) 0)) \<and>
            (\<forall>p \<in> set ps. \<exists>yj xj k. real yj < logoHeight (sampling env s d) \<and>
                 real xj < logoWidth (sampling env s d) \<and> spawned env (sampling env s d) yj xj k p))"
proof -
  let ?s = "s\<lparr>particles := []\<rparr>" and ?L = "sampling env s d"
  from rows_loop_cases [of env ?L 0 ?s] show ?thesis
  proof (elim disjE conjE exE)
    fix yj xj
    assume "rows_loop env ?L 0 ?s = Inl NotANumber" "real yj < logoHeight ?L"
      "real xj < logoWidth ?L" "emits ?L yj xj" "\<not> reads_ok ?L yj xj"
    moreover from this have "createParticles env s = Inl NotANumber"
      using assms by (simp add: createParticles_def Let_def)
    ultimately show ?thesis by blast
  next
    fix ps
    assume ps: "rows_loop env ?L 0 ?s =
           Inr (?s\<lparr>particles := particles ?s @ ps, rng := rng ?s + 2 * length ps\<rparr>)"
      "length ps = length (filter (\<lambda>(yj, xj). emits ?L yj xj) (visits ?L 0))"
      "\<forall>p \<in> set ps. \<exists>yj xj k. real yj < logoHeight ?L \<and> real xj < logoWidth ?L \<and>
           spawned env ?L yj xj k p"
    have "createParticles env s =
        Inr (s\<lparr>particles := ps, rng := rng s + 2 * length ps, particleCount := length ps\<rparr>)"
      using assms ps(1) by (simp add: createParticles_def Let_def)
    then show ?thesis
      using ps(2,3) by blast
  qed
qed




subsection \<open>A scaled width that is a whole number\<close>

text \<open>
  When the scaled width is a whole number \<open>W\<close> and the indices stay below \<open>2 ^ 53\<close>,
  every operation of the index computation is exact: the index is that of the pixel
  in a bitmap \<open>W\<close> pixels wide.
\<close>

lemma index_whole:
  assumes "4 * (yi * W + xi) + 3 < 2 ^ 53"
  shows "fmul (fadd (fmul (real yi) (real W)) (real xi)) 4 = real (4 * (yi * W + xi))"
    and "fadd (real (4 * (yi * W + xi))) 1 = real (4 * (yi * W + xi) + 1)"
    and "fadd (real (4 * (yi * W + xi))) 2 = real (4 * (yi * W + xi) + 2)"
    and "fadd (real (4 * (yi * W + xi))) 3 = real (4 * (yi * W + xi) + 3)"
proof -
  define n where "n = 4 * (yi * W + xi)"
  have b: "yi * W < 2 ^ 53" "yi * W + xi < 2 ^ 53" "(yi * W + xi) * 4 < 2 ^ 53"
    "n + 1 < 2 ^ 53" "n + 2 < 2 ^ 53" "n + 3 < 2 ^ 53"
    using assms by (simp_all add: n_def)
  have 1: "fmul (real yi) (real W) = real (yi * W)"
    using fl_of_nat [OF b(1)] by (simp add: fmul_def)
  have 2: "fadd (real (yi * W)) (real xi) = real (yi * W + xi)"
    using fl_of_nat [OF b(2)] by (simp add: fadd_def)
  have 3: "fmul (real (yi * W + xi)) 4 = real ((yi * W + xi) * 4)"
    using fl_of_nat [OF b(3)] by (simp add: fmul_def)
  have "fmul (fadd (fmul (real yi) (real W)) (real xi)) 4 = real ((yi * W + xi) * 4)"
    by (simp only: 1 2 3)
  also have "(yi * W + xi) * 4 = 4 * (yi * W + xi)"
    by simp
  finally show "fmul (fadd (fmul (real yi) (real W)) (real xi)) 4 = real (4 * (yi * W + xi))" .
  have "fadd (real n) 1 = fl (real (n + 1))"
    by (simp only: fadd_def of_nat_add of_nat_1)
  also have "\<dots> = real (n + 1)"
    using b(4) by (rule fl_of_nat)
  finally show "fadd (real (4 * (yi * W + xi))) 1 = real (4 * (yi * W + xi) + 1)"
    unfolding n_def .
  have "fadd (real n) 2 = fl (real (n + 2))"
    by (simp only: fadd_def of_nat_add of_nat_numeral)
  also have "\<dots> = real (n + 2)"
    using b(5) by (rule fl_of_nat)
  finally show "fadd (real (4 * (yi * W + xi))) 2 = real (4 * (yi * W + xi) + 2)"
    unfolding n_def .
  have "fadd (real n) 3 = fl (real (n + 3))"
    by (simp only: fadd_def of_nat_add of_nat_numeral)
  also have "\<dots> = real (n + 3)"
    using b(6) by (rule fl_of_nat)
  finally show "fadd (real (4 * (yi * W + xi))) 3 = real (4 * (yi * W + xi) + 3)"
    unfolding n_def .
qed

lemma emits_whole:
  assumes "logoWidth L = real W" and "4 * (yi * W + xi) + 3 < 2 ^ 53"
  shows "emits L yi xi \<longleftrightarrow>
           4 * (yi * W + xi) + 3 < length (pixelData L) \<and>
           128 < unat (pixel_alpha (pixelData L) W yi xi)"
    and "emits L yi xi \<longrightarrow> reads_ok L yi xi"
proof -
  note iw = index_whole [OF assms(2)]
  show e: "emits L yi xi \<longleftrightarrow>
           4 * (yi * W + xi) + 3 < length (pixelData L) \<and>
           128 < unat (pixel_alpha (pixelData L) W yi xi)"
    by (simp only: emits_def alpha_at_def assms(1) iw typed_get_nat pixel_alpha_def)
      (simp split: if_splits)
  show "emits L yi xi \<longrightarrow> reads_ok L yi xi"
  proof
    assume "emits L yi xi"
    then have "4 * (yi * W + xi) + 3 < length (pixelData L)"
      using e by simp
    then have "4 * (yi * W + xi) < length (pixelData L)"
      "4 * (yi * W + xi) + 1 < length (pixelData L)"
      "4 * (yi * W + xi) + 2 < length (pixelData L)"
      by simp_all
    then show "reads_ok L yi xi"
      by (simp only: reads_ok_def Let_def assms(1) iw typed_get_nat) simp
  qed
qed

lemma product_append: "List.product (as @ bs) cs = List.product as cs @ List.product bs cs"
  by (induction as) simp_all

lemma filter_rows:
  assumes "H \<le> C"
  shows "length (filter (\<lambda>(yj, xj). yj < H \<and> Q yj xj) (List.product [0..<C] cs)) =
         length (filter (\<lambda>(yj, xj). Q yj xj) (List.product [0..<H] cs))"
proof -
  have split: "[0..<C] = [0..<H] @ [H..<C]"
    using assms by (metis le_add_diff_inverse upt_add_eq_append zero_le)
  have low: "filter (\<lambda>(yj, xj). yj < H \<and> Q yj xj) (List.product [0..<H] cs) =
      filter (\<lambda>(yj, xj). Q yj xj) (List.product [0..<H] cs)"
    by (rule filter_cong) auto
  have high: "filter (\<lambda>(yj, xj). yj < H \<and> Q yj xj) (List.product [H..<C] cs) = []"
    by (auto simp: filter_empty_conv)
  show ?thesis
    by (simp only: split product_append filter_append low high) simp
qed

lemma in_range_iff:
  assumes "xi < (W::nat)"
  shows "4 * (yi * W + xi) + 3 < 4 * W * H \<longleftrightarrow> yi < H"
proof -
  define A where "A = yi * W"
  define B where "B = H * W"
  have e: "4 * (yi * W + xi) + 3 = 4 * (A + xi) + 3" "4 * W * H = 4 * B"
    by (simp_all add: A_def B_def)
  have up: "A + W \<le> B" if "yi < H"
  proof -
    from that have "Suc yi \<le> H" by simp
    then have "Suc yi * W \<le> H * W" by (rule mult_le_mono1)
    then show ?thesis by (simp add: A_def B_def)
  qed
  have down: "B \<le> A" if "\<not> yi < H"
  proof -
    from that have "H \<le> yi" by simp
    then have "H * W \<le> yi * W" by (rule mult_le_mono1)
    then show ?thesis by (simp only: A_def B_def)
  qed
  show ?thesis
  proof (cases "yi < H")
    case True
    have "4 * (A + xi) + 3 < 4 * B"
      using up [OF True] assms by arith
    then show ?thesis
      unfolding e using True by simp
  next
    case False
    have "\<not> 4 * (A + xi) + 3 < 4 * B"
      using down [OF False] by arith
    then show ?thesis
      unfolding e using False by simp
  qed
qed

subsection \<open>The sample inputs\<close>

lemma sample_constructor: "constructor sample_env = ([], Inr sample_state)"
  by (simp add: constructor_def sample_env_def initWebGL_def createShader_def createProgram_def
      fields_def setupEventListeners_def sample_state_def)

lemma sample_fields:
  "canvas_width sample_state = 350" "canvas_height sample_state = 150"
  "particles sample_state = []" "isMouseOver sample_state = False"
  "mouseX sample_state = - 1000" "mouseY sample_state = - 1000"
  "animationId sample_state = 0" "particleCount sample_state = 0"
  "onload_set sample_state = True" "scheduled sample_state = []"
  "next_handle sample_state = 1" "draws sample_state = []" "rng sample_state = 0"
  by (simp_all add: sample_state_def)

lemma sample_scale:
  assumes "canvas_width s = 350" and "canvas_height s = 150"
  shows "logo_scale sample_env s = 1"
  using assms by (simp add: logo_scale_def sample_env_def fl_simps)

lemma sample_sampling_eq: "canvas_width s = 350 \<Longrightarrow> canvas_height s = 150 \<Longrightarrow>
    sampling sample_env s sample_pixels = sample_sampling"
  by (simp add: sampling_def sample_scale Let_def sample_sampling_def)
    (simp add: sample_env_def fl_simps)

lemma sample_rows_loop:
  "rows_loop sample_env sample_sampling 0 s =
     Inr (s\<lparr>particles := particles s @ [sample_particle], rng := rng s + 2\<rparr>)"
  by (simp add: rows_loop.simps columns_loop.simps sample_pixel_def typed_get_def channel_def
      Let_def nth_append sample_sampling_def sample_pixels_def sample_env_def sample_particle_def
      fl_simps)

lemma sample_createParticles:
  assumes "canvas_width s = 350" and "canvas_height s = 150"
  shows "createParticles sample_env s =
     Inr (s\<lparr>particles := [sample_particle], rng := rng s + 2, particleCount := 1\<rparr>)"
proof -
  have "getImageData sample_env w h = Some sample_pixels" for w h
    by (simp add: sample_env_def)
  moreover have "ctx2d sample_env" "logo_width sample_env = 1" "logo_height sample_env = 135"
    by (simp_all add: sample_env_def)
  ultimately show ?thesis
    using assms by (simp add: createParticles_def Let_def sample_sampling_eq sample_rows_loop)
qed

lemma sample_created_eq: "createParticles sample_env sample_state = Inr sample_created"
  by (simp add: sample_createParticles sample_state_def sample_created_def)

section \<open>Properties of particle creation\<close>

text \<open>
  Claim C2, as stated, fails: the second pixel of the sample logo has alpha 128, which
  is above 50 percent of 255, and the loop body pushes no particle for it.
\<close>

theorem alpha_half_counterexample:
  "alpha_at sample_sampling 1 0 = Some 128 \<and> exceeds_half 128 \<and>
   sample_pixel sample_env sample_sampling 1 0 sample_state = Inr sample_state"
  by (simp add: alpha_at_def exceeds_half_def sample_pixel_def typed_get_def sample_sampling_def
      sample_pixels_def Let_def fl_simps)

text \<open>
  Claim C2, amended. The threshold is 128. When the scaled width is a whole number
  \<open>W\<close>, and the image data is the bitmap of that width and of the scaled height cut to
  a whole number, a visit of the loop body at a pixel of the bitmap pushes exactly one
  particle when the alpha of that pixel is strictly greater than 128 and none
  otherwise; and particle creation returns with as many particles as the bitmap has
  pixels whose alpha is strictly greater than 128. (For a scaled width that is not
  whole the index the loop computes is not the pixel's; the statement leaves that
  case out.)
\<close>

theorem alpha_threshold_128:
  assumes "ctx2d env" and "0 < logo_width env" and "0 < logo_height env"
    and "getImageData env (fmul (real (logo_width env)) (logo_scale env s))
           (fmul (real (logo_height env)) (logo_scale env s)) = Some d"
    and "logoWidth (sampling env s d) = real W"
    and "length d = 4 * W * nat \<lfloor>logoHeight (sampling env s d)\<rfloor>"
    and "4 * W * nat \<lceil>logoHeight (sampling env s d)\<rceil> < 2 ^ 53"
  shows "(\<forall>yi xi t. yi < nat \<lfloor>logoHeight (sampling env s d)\<rfloor> \<and> xi < W \<longrightarrow>
            (\<exists>ps. sample_pixel env (sampling env s d) yi xi t =
                     Inr (t\<lparr>particles := particles t @ ps, rng := rng t + 2 * length ps\<rparr>) \<and>
                   length ps = (if 128 < unat (pixel_alpha d W yi xi) then 1 else 0))) \<and>
         (\<exists>s'. createParticles env s = Inr s' \<and>
              length (particles s') =
                length (filter (\<lambda>(yi, xi). 128 < unat (pixel_alpha d W yi xi))
                          (List.product [0..<nat \<lfloor>logoHeight (sampling env s d)\<rfloor>] [0..<W])))"
proof -
  let ?L = "sampling env s d"
  let ?H = "nat \<lfloor>logoHeight ?L\<rfloor>" and ?C = "nat \<lceil>logoHeight ?L\<rceil>"
  have pd: "pixelData ?L = d"
    by (simp add: sampling_def Let_def)
  have HC: "?H \<le> ?C"
    by (intro nat_mono) linarith
  have bound: "4 * (yj * W + xj) + 3 < 2 ^ 53" if "yj < ?C" "xj < W" for yj xj
  proof -
    have "4 * (yj * W + xj) + 3 < 4 * W * ?C"
      using that by (simp only: in_range_iff)
    then show ?thesis using assms(7) by simp
  qed
  have em: "emits ?L yj xj \<longleftrightarrow> yj < ?H \<and> 128 < unat (pixel_alpha d W yj xj)"
    if "yj < ?C" "xj < W" for yj xj
    using emits_whole(1) [OF assms(5) bound [OF that], unfolded pd]
      in_range_iff [OF that(2), of yj ?H] by (simp add: assms(6))
  have ok: "emits ?L yj xj \<longrightarrow> reads_ok ?L yj xj" if "yj < ?C" "xj < W" for yj xj
    using emits_whole(2) [OF assms(5) bound [OF that]] .
  have visited: "yj < ?C \<and> xj < W"
    if "real yj < logoHeight ?L" "real xj < logoWidth ?L" for yj xj
  proof
    show "yj < ?C" using that(1) by linarith
    show "xj < W" using that(2) by (simp add: assms(5))
  qed
  have pixel: "\<exists>ps. sample_pixel env ?L yi xi t =
                     Inr (t\<lparr>particles := particles t @ ps, rng := rng t + 2 * length ps\<rparr>) \<and>
                   length ps = (if 128 < unat (pixel_alpha d W yi xi) then 1 else 0)"
    if "yi < ?H \<and> xi < W" for yi xi t
  proof -
    have c: "yi < ?C" "xi < W" using that HC by simp_all
    from sample_pixel_cases [of ?L yi xi env t] show ?thesis
    proof (elim disjE conjE exE)
      assume "\<not> emits ?L yi xi" and "sample_pixel env ?L yi xi t = Inr t"
      then show ?thesis
        using em [OF c] that by (intro exI [of _ "[]"]) simp
    next
      assume "emits ?L yi xi" "\<not> reads_ok ?L yi xi"
      then show ?thesis using ok [OF c] by simp
    next
      fix p
      assume "emits ?L yi xi"
        and "sample_pixel env ?L yi xi t =
               Inr (t\<lparr>particles := particles t @ [p], rng := rng t + 2\<rparr>)"
      then show ?thesis
        using em [OF c] by (intro exI [of _ "[p]"]) simp
    qed
  qed
  from createParticles_cases [OF assms(1-4)]
  have total: "\<exists>s'. createParticles env s = Inr s' \<and>
              length (particles s') =
                length (filter (\<lambda>(yi, xi). 128 < unat (pixel_alpha d W yi xi))
                          (List.product [0..<?H] [0..<W]))"
  proof (elim disjE conjE exE)
    fix yj xj
    assume "real yj < logoHeight ?L" "real xj < logoWidth ?L"
      "emits ?L yj xj" "\<not> reads_ok ?L yj xj"
    then show ?thesis
      using ok visited by blast
  next
    fix ps
    assume cp: "createParticles env s =
        Inr (s\<lparr>particles := ps, rng := rng s + 2 * length ps, particleCount := length ps\<rparr>)"
      and len: "length ps = length (filter (\<lambda>(yj, xj). emits ?L yj xj) (visits ?L 0))"
    have vis: "visits ?L 0 = List.product [0..<?C] [0..<W]"
      by (simp add: visits_def assms(5))
    have "filter (\<lambda>(yj, xj). emits ?L yj xj) (List.product [0..<?C] [0..<W]) =
        filter (\<lambda>(yj, xj). yj < ?H \<and> 128 < unat (pixel_alpha d W yj xj))
          (List.product [0..<?C] [0..<W])"
      by (rule filter_cong) (auto simp: em)
    then have "length ps =
        length (filter (\<lambda>(yj, xj). yj < ?H \<and> 128 < unat (pixel_alpha d W yj xj))
          (List.product [0..<?C] [0..<W]))"
      using len vis by simp
    also have "\<dots> = length (filter (\<lambda>(yj, xj). 128 < unat (pixel_alpha d W yj xj))
          (List.product [0..<?H] [0..<W]))"
      using HC by (rule filter_rows)
    finally show ?thesis
      using cp by simp
  qed
  show ?thesis
    using pixel total by blast
qed




section \<open>Invariants of the simulation\<close>







section \<open>Construction\<close>

text \<open>
  Claim C9. Construction raises in exactly these cases: no WebGL2 context; a shader that
  does not compile; a program that does not link. In the last two the info log of the
  shader or program has been written to the console before the error is raised.
  Otherwise construction succeeds and writes nothing.
\<close>

theorem construction_failures:
  "constructor env =
     (if \<not> webgl2 env then ([], Inl (Error ''WebGL2 not supported''))
      else if \<not> compile_status env VERTEX_SHADER then
        ([(''Shader compile error:'', shader_log env VERTEX_SHADER)],
         Inl (Error ''Shader compilation failed''))
      else if \<not> compile_status env FRAGMENT_SHADER then
        ([(''Shader compile error:'', shader_log env FRAGMENT_SHADER)],
         Inl (Error ''Shader compilation failed''))
      else if \<not> link_status env then
        ([(''Program link error:'', program_log env)], Inl (Error ''Program linking failed''))
      else ([], Inr (constructed env))) \<and>
   ((\<exists>e. snd (constructor env) = Inl e) \<longleftrightarrow>
      \<not> webgl2 env \<or> \<not> compile_status env VERTEX_SHADER \<or>
      \<not> compile_status env FRAGMENT_SHADER \<or> \<not> link_status env)"
  by (simp add: constructor_def initWebGL_def createShader_def createProgram_def constructed_def
      setupEventListeners_def Let_def)

lemma constructor_Inr:
  assumes "constructor env = (c, Inr s)"
  shows "s = constructed env"
  using assms
  by (simp add: constructor_def initWebGL_def createShader_def createProgram_def constructed_def
      setupEventListeners_def Let_def split: if_splits)

section \<open>No 2D context\<close>

lemma animate_empty:
  assumes "particles s = []" and "particleCount s = 0"
  shows "animate s = Inr (requestAnimationFrame (s\<lparr>draws := draws s @ [0]\<rparr>))"
proof -
  have "s\<lparr>particles := []\<rparr> = s\<lparr>particles := particles s\<rparr>"
    by (simp only: assms(1))
  then have same: "s\<lparr>particles := []\<rparr> = s"
    by simp
  have "particleCount s = length (particles s)"
    using assms by simp
  from animate_map [OF this] have
    "animate s = Inr (requestAnimationFrame ((s\<lparr>particles := []\<rparr>)\<lparr>draws := draws s @ [0]\<rparr>))"
    using assms by simp
  then show ?thesis
    by (simp only: same)
qed

lemma frames_empty:
  assumes "particles s = []" and "particleCount s = 0" and "length (scheduled s) = 1"
  shows "\<exists>s'. run env (replicate n Frame) s = Inr s' \<and> particles s' = [] \<and>
           particleCount s' = 0 \<and> length (scheduled s') = 1 \<and>
           draws s' = draws s @ replicate n 0"
  using assms
proof (induction n arbitrary: s)
  case 0
  then show ?case by simp
next
  case (Suc n)
  from Suc.prems(3) obtain h where h: "scheduled s = [h]"
    by (cases "scheduled s") simp_all
  let ?s0 = "s\<lparr>scheduled := []\<rparr>"
  let ?s1 = "requestAnimationFrame (?s0\<lparr>draws := draws ?s0 @ [0]\<rparr>)"
  have "animate ?s0 = Inr ?s1"
    using Suc.prems by (intro animate_empty) simp_all
  then have f: "frame s = Inr ?s1"
    by (simp add: frame_def h)
  have "\<exists>s'. run env (replicate n Frame) ?s1 = Inr s' \<and> particles s' = [] \<and>
           particleCount s' = 0 \<and> length (scheduled s') = 1 \<and>
           draws s' = draws ?s1 @ replicate n 0"
    using Suc.prems by (intro Suc.IH) (simp_all add: requestAnimationFrame_def)
  then show ?case
    using f by (simp add: requestAnimationFrame_def replicate_app_Cons_same)
qed

text \<open>
  Claim C10. Without a 2D context particle creation returns with no particle and raises
  nothing; the load handler goes on to \<open>animate\<close>, and every frame after it draws zero
  points and requests the next frame.
\<close>

theorem no_sampling_context:
  assumes "\<not> ctx2d env" and "constructor env = (c, Inr s0)"
  shows "createParticles env s0 = Inr s0 \<and>
         (\<forall>n. \<exists>s'. run env (Load # replicate n Frame) s0 = Inr s' \<and> particles s' = [] \<and>
                 draws s' = replicate (Suc n) 0 \<and> scheduled s' \<noteq> [])"
proof -
  have s0: "s0 = constructed env"
    using assms(2) by (rule constructor_Inr)
  have cp: "createParticles env s0 = Inr s0"
    using assms(1) by (simp add: createParticles_def Let_def s0 constructed_def fields_def)
  let ?s1 = "requestAnimationFrame (s0\<lparr>draws := draws s0 @ [0]\<rparr>)"
  have an: "animate s0 = Inr ?s1"
    by (intro animate_empty) (simp_all add: s0 constructed_def fields_def)
  have ld: "handle env Load s0 = Inr ?s1"
    using cp an by (simp add: onload_def) (simp add: s0 constructed_def)
  have "\<exists>s'. run env (Load # replicate n Frame) s0 = Inr s' \<and> particles s' = [] \<and>
                 draws s' = replicate (Suc n) 0 \<and> scheduled s' \<noteq> []" for n
  proof -
    have "\<exists>s'. run env (replicate n Frame) ?s1 = Inr s' \<and> particles s' = [] \<and>
           particleCount s' = 0 \<and> length (scheduled s') = 1 \<and>
           draws s' = draws ?s1 @ replicate n 0"
      by (intro frames_empty)
        (simp_all add: requestAnimationFrame_def s0 constructed_def fields_def)
    then obtain s' where s': "run env (replicate n Frame) ?s1 = Inr s'" "particles s' = []"
      "length (scheduled s') = 1" "draws s' = draws ?s1 @ replicate n 0"
      by blast
    have "draws ?s1 = [0]"
      by (simp add: requestAnimationFrame_def s0 constructed_def fields_def)
    then have "draws s' = replicate (Suc n) 0"
      using s'(4) by simp
    moreover have "scheduled s' \<noteq> []"
      using s'(3) by auto
    ultimately show ?thesis
      using ld s'(1,2) by simp
  qed
  then show ?thesis
    using cp by blast
qed

section \<open>Teardown\<close>

text \<open>
  \<open>destroy\<close> twice is \<open>destroy\<close> once, and when the one waiting callback is the one
  \<open>animationId\<close> names, \<open>destroy\<close> removes it and the next frame does nothing.
\<close>

lemma destroy_idempotent: "destroy (destroy s) = destroy s"
  by (simp add: destroy_def cancelAnimationFrame_def Let_def)

lemma destroy_cancels_pending:
  assumes "scheduled s = [animationId s]"
  shows "scheduled (destroy s) = []" and "frame (destroy s) = Inr (destroy s)"
proof -
  show a: "scheduled (destroy s) = []"
    using assms by (simp add: destroy_def cancelAnimationFrame_def Let_def)
  have "(destroy s)\<lparr>scheduled := []\<rparr> = (destroy s)\<lparr>scheduled := scheduled (destroy s)\<rparr>"
    by (simp only: a)
  then have "(destroy s)\<lparr>scheduled := []\<rparr> = destroy s"
    by simp
  then show "frame (destroy s) = Inr (destroy s)"
    by (simp add: frame_def a)
qed

lemma sample_destroy:
  "destroy sample_state =
     sample_state\<lparr>program_live := False, buffer_live := False,
       listening_mousemove := False, listening_mouseout := False\<rparr>"
  by (simp add: destroy_def cancelAnimationFrame_def Let_def sample_state_def)

lemma destroy_after_load:
  "\<exists>s. run sample_env [Load, Destroy, Frame, Frame] sample_state = Inr s \<and>
      draws s = [1] \<and> scheduled s = []"
  by (simp add: onload_def sample_createParticles animate_map destroy_def cancelAnimationFrame_def
      frame_def requestAnimationFrame_def Let_def sample_fields)

text \<open>
  Claim C8 fails on the code when \<open>destroy\<close> comes before the image has loaded:
  \<open>animationId\<close> is still 0, nothing is cancelled and the \<open>onload\<close> handler stays
  installed. On the sample host, after construction, \<open>destroy\<close>, the load event and one
  frame, two physics steps and two draws have taken place with the program and the
  buffer deleted, and a third frame is scheduled.
\<close>

theorem destroy_before_load:
  "constructor sample_env = ([], Inr sample_state) \<and>
   (\<exists>s. run sample_env [Destroy, Load, Frame] sample_state = Inr s \<and>
      draws s = [1, 1] \<and> scheduled s = [2] \<and> map z (particles s) = [- 18.4033952] \<and>
      \<not> program_live s \<and> \<not> buffer_live s)"
  by (simp add: sample_constructor sample_destroy onload_def sample_createParticles animate_map
      frame_def requestAnimationFrame_def spec_step_def spec_integrate_def spec_friction_def
      spec_repulsion_def spec_spring_def Let_def sample_particle_def sample_fields)

section \<open>The properties at the sample inputs\<close>

theorem physics_step_order_witness:
  "particleCount sample_created = length (particles sample_created) \<and>
   (\<exists>s'. animate sample_created = Inr s' \<and>
      particles s' =
        map (spec_step (isMouseOver sample_created) (mouseX sample_created, mouseY sample_created))
          (particles sample_created))"
proof -
  have h: "particleCount sample_created = length (particles sample_created)"
    by (simp add: sample_created_def)
  show ?thesis
    using h physics_step_order [OF h] by simp
qed

theorem rest_state_fixed_witness:
  "particleCount rest_state = length (particles rest_state) \<and> \<not> isMouseOver rest_state \<and>
   particles rest_state = [sample_particle\<lparr>z := 0\<rparr>] \<and> at_rest (sample_particle\<lparr>z := 0\<rparr>) \<and>
   (\<exists>s'. steps 3 rest_state = Inr s' \<and> particles s' = particles rest_state)"
proof -
  have h1: "particleCount rest_state = length (particles rest_state)"
    and h2: "\<not> isMouseOver rest_state"
    and ps: "particles rest_state = [sample_particle\<lparr>z := 0\<rparr>]"
    and r: "at_rest (sample_particle\<lparr>z := 0\<rparr>)"
    by (simp_all add: rest_state_def sample_created_def sample_state_def sample_particle_def
        at_rest_def)
  have h3: "\<forall>p \<in> set (particles rest_state). at_rest p"
    using ps r by simp
  show ?thesis
    using h1 h2 ps r rest_state_fixed [OF h1 h2 h3, of 3] by simp
qed

theorem repulsion_boundary_witness:
  "sqrt ((x sample_particle - 109 / 2) * (x sample_particle - 109 / 2) +
         (y sample_particle - 15 / 2) * (y sample_particle - 15 / 2)) = mouseRadius \<and>
   mouse_interaction (109 / 2) (15 / 2) sample_particle = Inr sample_particle \<and>
   mouse_interaction (x sample_particle) (y sample_particle) sample_particle =
     Inr (sample_particle\<lparr>vz := vz sample_particle + 2\<rparr>)"
proof -
  have "sqrt (120 * 120) = (120::real)"
    by simp
  then have h: "sqrt ((x sample_particle - 109 / 2) * (x sample_particle - 109 / 2) +
         (y sample_particle - 15 / 2) * (y sample_particle - 15 / 2)) = mouseRadius"
    by (simp add: sample_particle_def mouseRadius_def)
  from repulsion_boundary [of "109 / 2" "15 / 2" sample_particle sample_particle]
  obtain q where "mouse_interaction (109 / 2) (15 / 2) sample_particle = Inr q"
    and "sqrt ((x sample_particle - 109 / 2) * (x sample_particle - 109 / 2) +
         (y sample_particle - 15 / 2) * (y sample_particle - 15 / 2)) = mouseRadius \<longrightarrow>
         q = sample_particle"
    and c: "mouse_interaction (x sample_particle) (y sample_particle) sample_particle =
     Inr (sample_particle\<lparr>vz := vz sample_particle + 2\<rparr>)"
    by blast
  then have "mouse_interaction (109 / 2) (15 / 2) sample_particle = Inr sample_particle"
    using h by simp
  then show ?thesis
    using h c by simp
qed

theorem alpha_threshold_128_witness:
  "ctx2d sample_env \<and> 0 < logo_width sample_env \<and> 0 < logo_height sample_env \<and>
   getImageData sample_env (fmul (real (logo_width sample_env)) (logo_scale sample_env sample_state))
     (fmul (real (logo_height sample_env)) (logo_scale sample_env sample_state)) =
     Some sample_pixels \<and>
   logoWidth (sampling sample_env sample_state sample_pixels) = real 1 \<and>
   length sample_pixels =
     4 * 1 * nat \<lfloor>logoHeight (sampling sample_env sample_state sample_pixels)\<rfloor> \<and>
   4 * 1 * nat \<lceil>logoHeight (sampling sample_env sample_state sample_pixels)\<rceil> < (2::nat) ^ 53 \<and>
   pixel_alpha sample_pixels 1 0 0 = 255 \<and> pixel_alpha sample_pixels 1 1 0 = 128 \<and>
   createParticles sample_env sample_state = Inr sample_created \<and>
   length (particles sample_created) =
     length (filter (\<lambda>(yi, xi). 128 < unat (pixel_alpha sample_pixels 1 yi xi))
               (List.product
                  [0..<nat \<lfloor>logoHeight (sampling sample_env sample_state sample_pixels)\<rfloor>]
                  [0..<1]))"
proof -
  have sm: "sampling sample_env sample_state sample_pixels = sample_sampling"
    by (rule sample_sampling_eq) (simp_all add: sample_fields)
  have h1: "ctx2d sample_env" and h2: "0 < logo_width sample_env"
    and h3: "0 < logo_height sample_env"
    and h4: "getImageData sample_env
       (fmul (real (logo_width sample_env)) (logo_scale sample_env sample_state))
       (fmul (real (logo_height sample_env)) (logo_scale sample_env sample_state)) =
       Some sample_pixels"
    by (simp_all add: sample_env_def)
  have len: "length sample_pixels = 540"
    by (simp add: sample_pixels_def)
  have h5: "logoWidth (sampling sample_env sample_state sample_pixels) = real 1"
    and h6: "length sample_pixels =
       4 * 1 * nat \<lfloor>logoHeight (sampling sample_env sample_state sample_pixels)\<rfloor>"
    and h7: "4 * 1 * nat \<lceil>logoHeight (sampling sample_env sample_state sample_pixels)\<rceil>
       < (2::nat) ^ 53"
    by (simp_all add: sm sample_sampling_def len)
  have a: "pixel_alpha sample_pixels 1 0 0 = 255" "pixel_alpha sample_pixels 1 1 0 = 128"
    by (simp_all add: pixel_alpha_def sample_pixels_def)
  from alpha_threshold_128 [OF h1 h2 h3 h4 h5 h6 h7] obtain s' where
    "createParticles sample_env sample_state = Inr s'"
    "length (particles s') =
       length (filter (\<lambda>(yi, xi). 128 < unat (pixel_alpha sample_pixels 1 yi xi))
         (List.product
            [0..<nat \<lfloor>logoHeight (sampling sample_env sample_state sample_pixels)\<rfloor>]
            [0..<1]))"
    by blast
  then have "length (particles sample_created) =
       length (filter (\<lambda>(yi, xi). 128 < unat (pixel_alpha sample_pixels 1 yi xi))
         (List.product
            [0..<nat \<lfloor>logoHeight (sampling sample_env sample_state sample_pixels)\<rfloor>]
            [0..<1]))"
    using sample_created_eq by simp
  then show ?thesis
    using h1 h2 h3 h4 h5 h6 h7 a sample_created_eq by blast
qed




theorem construction_failures_witness:
  "constructor broken_env =
     ([(''Shader compile error:'', ''ERROR: 0:5: syntax error'')],
      Inl (Error ''Shader compilation failed'')) \<and>
   constructor sample_env = ([], Inr (constructed sample_env))"
  using construction_failures [of broken_env] construction_failures [of sample_env]
  by (simp add: broken_env_def sample_env_def)

theorem no_sampling_context_witness:
  "\<not> ctx2d no2d_env \<and> constructor no2d_env = ([], Inr sample_state) \<and>
   createParticles no2d_env sample_state = Inr sample_state \<and>
   (\<exists>s'. run no2d_env (Load # replicate 2 Frame) sample_state = Inr s' \<and> particles s' = [] \<and>
      draws s' = replicate (Suc 2) 0 \<and> scheduled s' \<noteq> [])"
proof -
  have h1: "\<not> ctx2d no2d_env"
    by (simp add: no2d_env_def)
  have h2: "constructor no2d_env = ([], Inr sample_state)"
    by (simp add: constructor_def no2d_env_def sample_env_def initWebGL_def createShader_def
        createProgram_def fields_def setupEventListeners_def sample_state_def)
  show ?thesis
    using h1 h2 no_sampling_context [OF h1 h2] by blast
qed

end
